theory Spec2Isabelle
  imports Complex_Main "HOL-Library.Word"
begin

section \<open>Rate limiting and bot detection (rate-limiter part of src/src/lib/license.ts)\<close>

text \<open>
  Timestamps are the millisecond values of \<open>Date.now()\<close>, modelled as \<open>int\<close>. Every
  function that reads the clock takes the current time as the argument \<open>now\<close>.
\<close>

record RequestRecord =
  timestamp :: int
  action :: string
  count :: int

text \<open>
  The entry that \<open>logSuspiciousActivity\<close> appends to the item
  \<open>chapterflash_security_logs\<close>. The user agent and the fixed message of the source's
  entry are constants of the environment and are left out.
\<close>

record SecurityLog =
  log_timestamp :: int
  log_action :: string
  requestCount :: int

record RateLimiter =
  requests :: "RequestRecord list"
  blocked :: bool
  blockUntil :: int

definition FLASHCARD_LIMIT :: int where "FLASHCARD_LIMIT = 50"
definition API_LIMIT :: int where "API_LIMIT = 100"
definition WINDOW_MS :: int where "WINDOW_MS = 60000"
definition BLOCK_DURATION :: int where "BLOCK_DURATION = 300000"

text \<open>The state of a freshly constructed \<open>RateLimiter\<close> (also what \<open>reset()\<close> restores).\<close>

definition newRateLimiter :: RateLimiter where
  "newRateLimiter = \<lparr>requests = [], blocked = False, blockUntil = 0\<rparr>"

definition getActionLimit :: "string \<Rightarrow> int" where
  "getActionLimit act =
     (if act = ''flashcard_view'' then FLASHCARD_LIMIT
      else if act = ''api_call'' then API_LIMIT
      else if act = ''export_data'' then 5
      else if act = ''chapter_access'' then 20
      else 100)"

definition logSuspiciousActivity :: "string \<Rightarrow> int \<Rightarrow> int \<Rightarrow> SecurityLog list \<Rightarrow> SecurityLog list" where
  "logSuspiciousActivity act cnt now existing =
     (let pushed = existing @ [\<lparr>log_timestamp = now, log_action = act, requestCount = cnt\<rparr>]
      in if length pushed > 50 then tl pushed else pushed)"

text \<open>
  \<open>limit || this.getActionLimit(action)\<close>: the optional argument is \<open>None\<close> when it is
  not passed; a passed \<open>0\<close> is falsy in JavaScript, so the default applies as well.
\<close>

definition resolveLimit :: "int option \<Rightarrow> string \<Rightarrow> int" where
  "resolveLimit limit act =
     (case limit of
        None \<Rightarrow> getActionLimit act
      | Some n \<Rightarrow> if n = 0 then getActionLimit act else n)"

text \<open>
  \<open>canProceed(action, limit)\<close>: returns the answer, the updated limiter and the updated
  security log.
\<close>

definition canProceed ::
  "string \<Rightarrow> int option \<Rightarrow> int \<Rightarrow> RateLimiter \<Rightarrow> SecurityLog list
     \<Rightarrow> bool \<times> RateLimiter \<times> SecurityLog list" where
  "canProceed act limit now rl logs =
     (if blocked rl \<and> now < blockUntil rl then (False, rl, logs)
      else
        let rl1 = (if blocked rl \<and> now \<ge> blockUntil rl
                   then rl\<lparr>blocked := False, requests := []\<rparr> else rl);
            rl2 = rl1\<lparr>requests := filter (\<lambda>req. now - timestamp req < WINDOW_MS) (requests rl1)\<rparr>;
            maxRequests = resolveLimit limit act;
            actionRequests = filter (\<lambda>req. action req = act) (requests rl2);
            totalCount = foldl (\<lambda>sum req. sum + count req) 0 actionRequests
        in if totalCount \<ge> maxRequests
           then (False, rl2\<lparr>blocked := True, blockUntil := now + BLOCK_DURATION\<rparr>,
                 logSuspiciousActivity act totalCount now logs)
           else (True,
                 rl2\<lparr>requests := requests rl2 @ [\<lparr>timestamp = now, action = act, count = 1\<rparr>]\<rparr>,
                 logs))"









text \<open>
  A sequence of \<open>canProceed\<close> calls for one action at the given times, each on the state
  the previous call left: the answers, the final limiter and the final log.
\<close>

fun runCalls ::
  "string \<Rightarrow> int option \<Rightarrow> int list \<Rightarrow> RateLimiter \<Rightarrow> SecurityLog list
     \<Rightarrow> bool list \<times> RateLimiter \<times> SecurityLog list" where
  "runCalls act limit [] rl logs = ([], rl, logs)"
| "runCalls act limit (t # ts) rl logs =
     (let (r, rl', logs') = canProceed act limit t rl logs;
          (rs, rl'', logs'') = runCalls act limit ts rl' logs'
      in (r # rs, rl'', logs''))"





text \<open>A run of \<open>n\<close> events of one action, the first at \<open>t0\<close>, each \<open>d\<close> after the previous.\<close>

definition evenlySpaced :: "string \<Rightarrow> int \<Rightarrow> int \<Rightarrow> nat \<Rightarrow> RequestRecord list" where
  "evenlySpaced act t0 d n =
     map (\<lambda>i. \<lparr>timestamp = t0 + int i * d, action = act, count = 1\<rparr>) [0..<n]"

section \<open>Device fingerprinting (src/unnamed/part_001)\<close>

text \<open>
  A JavaScript value of the kinds the fingerprint holds. Numbers are the integer-valued
  attributes (\<open>colorDepth\<close>, \<open>hardwareConcurrency\<close>, \<open>deviceMemory\<close> in whole GiB).
  An object is the list of its entries in insertion order; its keys are distinct.
\<close>

datatype jsval = JStr string | JNum int | JBool bool | JUndefined

type_synonym jsobj = "(string \<times> jsval) list"

record DeviceFingerprint =
  fp_id :: string
  fp_components :: jsobj
  fp_timestamp :: int

text \<open>
  What \<open>getDeviceFingerprint\<close> reads from the browser: the result of
  \<open>getCanvasFingerprint()\<close>, the fields of \<open>navigator\<close>, \<open>screen\<close> and \<open>Intl\<close>, and the
  result of \<open>getTouchSupport()\<close>. \<open>None\<close> is a property the browser does not expose.
\<close>

record Env =
  env_canvas :: string
  env_userAgent :: string
  env_language :: string
  env_timeZone :: string
  env_screenWidth :: int
  env_screenHeight :: int
  env_colorDepth :: int
  env_platform :: string
  env_hardwareConcurrency :: "int option"
  env_deviceMemory :: "int option"
  env_touchSupport :: bool
  env_vendor :: string

text \<open>Decimal rendering of an integer, as a template literal renders a number.\<close>

fun showNat :: "nat \<Rightarrow> string" where
  "showNat n =
     (if n < 10 then [''0123456789'' ! n]
      else showNat (n div 10) @ [''0123456789'' ! (n mod 10)])"

declare showNat.simps [simp del]

definition showInt :: "int \<Rightarrow> string" where
  "showInt i = (if i < 0 then ''-'' @ showNat (nat (- i)) else showNat (nat i))"

fun jsToString :: "jsval \<Rightarrow> string" where
  "jsToString (JStr s) = s"
| "jsToString (JNum n) = showInt n"
| "jsToString (JBool b) = (if b then ''true'' else ''false'')"
| "jsToString JUndefined = ''undefined''"

text \<open>The object literal \<open>components\<close>, in the order the source writes its properties.\<close>

definition components :: "Env \<Rightarrow> jsobj" where
  "components env =
     [(''canvas'', JStr (env_canvas env)),
      (''userAgent'', JStr (env_userAgent env)),
      (''language'', JStr (env_language env)),
      (''timezone'', JStr (env_timeZone env)),
      (''screen'', JStr (showInt (env_screenWidth env) @ ''x'' @ showInt (env_screenHeight env)
                          @ ''x'' @ showInt (env_colorDepth env))),
      (''colorDepth'', JNum (env_colorDepth env)),
      (''platform'', JStr (env_platform env)),
      (''hardwareConcurrency'',
         JNum (case env_hardwareConcurrency env of None \<Rightarrow> 0 | Some n \<Rightarrow> n)),
      (''deviceMemory'',
         (case env_deviceMemory env of
            None \<Rightarrow> JUndefined
          | Some n \<Rightarrow> if n = 0 then JUndefined else JNum n)),
      (''touchSupport'', JBool (env_touchSupport env)),
      (''vendor'', JStr (env_vendor env))]"

fun joinWith :: "string \<Rightarrow> string list \<Rightarrow> string" where
  "joinWith sep [] = []"
| "joinWith sep [x] = x"
| "joinWith sep (x # y # ys) = x @ sep @ joinWith sep (y # ys)"

definition compositeString :: "jsobj \<Rightarrow> string" where
  "compositeString obj = joinWith ''|'' (map (\<lambda>(key, v). key @ '':'' @ jsToString v) obj)"

text \<open>\<open>b.toString(16).padStart(2, '0')\<close> on each byte of the digest, joined.\<close>

fun toString16 :: "nat \<Rightarrow> string" where
  "toString16 n =
     (if n < 16 then [''0123456789abcdef'' ! n]
      else toString16 (n div 16) @ [''0123456789abcdef'' ! (n mod 16)])"

declare toString16.simps [simp del]

definition padStart2 :: "string \<Rightarrow> string" where
  "padStart2 s = (if length s < 2 then replicate (2 - length s) (CHR ''0'') @ s else s)"

definition hexEncode :: "8 word list \<Rightarrow> string" where
  "hexEncode bytes = concat (map (\<lambda>b. padStart2 (toString16 (unat b))) bytes)"

text \<open>
  \<open>getDeviceFingerprint\<close>. The argument \<open>digest\<close> is the platform's
  \<open>crypto.subtle.digest('SHA-256', encoder.encode(s))\<close>, giving the bytes of the digest.
\<close>

definition getDeviceFingerprint :: "(string \<Rightarrow> 8 word list) \<Rightarrow> Env \<Rightarrow> int \<Rightarrow> DeviceFingerprint" where
  "getDeviceFingerprint digest env now =
     (let comps = components env;
          compositeStr = compositeString comps;
          hashArray = digest compositeStr;
          ident = hexEncode hashArray
      in \<lparr>fp_id = ident, fp_components = comps, fp_timestamp = now\<rparr>)"

text \<open>
  \<open>JSON.parse(JSON.stringify(fingerprint))\<close>: a property whose value is \<open>undefined\<close> is
  not written, so it is absent from what is read back.
\<close>

definition jsonRoundtrip :: "DeviceFingerprint \<Rightarrow> DeviceFingerprint" where
  "jsonRoundtrip fp = fp\<lparr>fp_components := filter (\<lambda>(key, v). v \<noteq> JUndefined) (fp_components fp)\<rparr>"

text \<open>
  The items of \<open>localStorage\<close> that the identity and license code use. \<open>None\<close> is an item
  that is absent or empty (both are falsy where the source tests them). The device item
  holds the parsed record. The ciphertext type \<open>'c\<close> and the integrity-tag type \<open>'h\<close> are
  those of the encryption module below.
\<close>

record ('c, 'h) Storage =
  chapterflash_license :: "'c option"
  chapterflash_license_hash :: "'h option"
  chapterflash_activation_date :: "string option"
  chapterflash_device :: "DeviceFingerprint option"

definition emptyStorage :: "('c, 'h) Storage" where
  "emptyStorage = \<lparr>chapterflash_license = None, chapterflash_license_hash = None,
                    chapterflash_activation_date = None, chapterflash_device = None\<rparr>"

definition registerDevice ::
  "(string \<Rightarrow> 8 word list) \<Rightarrow> Env \<Rightarrow> int \<Rightarrow> ('c, 'h) Storage \<Rightarrow> bool \<times> ('c, 'h) Storage" where
  "registerDevice digest env now s =
     (let existingData = chapterflash_device s;
          fingerprint = getDeviceFingerprint digest env now
      in case existingData of
           None \<Rightarrow> (True, s\<lparr>chapterflash_device := Some (jsonRoundtrip fingerprint)\<rparr>)
         | Some existing \<Rightarrow>
             if fp_id existing \<noteq> fp_id fingerprint then (False, s)
             else (False, s\<lparr>chapterflash_device := Some (jsonRoundtrip fingerprint)\<rparr>))"

definition getDeviceId ::
  "(string \<Rightarrow> 8 word list) \<Rightarrow> Env \<Rightarrow> int \<Rightarrow> ('c, 'h) Storage \<Rightarrow> string \<times> ('c, 'h) Storage" where
  "getDeviceId digest env now s =
     (case chapterflash_device s of
        Some data \<Rightarrow> (fp_id data, s)
      | None \<Rightarrow>
          let fingerprint = getDeviceFingerprint digest env now
          in (fp_id fingerprint, s\<lparr>chapterflash_device := Some (jsonRoundtrip fingerprint)\<rparr>))"

text \<open>\<open>a[key]\<close>: the value of the property, \<open>undefined\<close> when the object has none.\<close>

definition jsGet :: "jsobj \<Rightarrow> string \<Rightarrow> jsval" where
  "jsGet obj key = (case map_of obj key of None \<Rightarrow> JUndefined | Some v \<Rightarrow> v)"

definition countMatches :: "jsobj \<Rightarrow> jsobj \<Rightarrow> nat" where
  "countMatches a b =
     foldl (\<lambda>matches key. if jsGet a key = jsGet b key then matches + 1 else matches) 0 (map fst a)"

text \<open>
  \<open>calculateSimilarity\<close>: \<open>matches / keys.length\<close>. With no keys the source divides 0 by
  0 and gets \<open>NaN\<close>, which is \<open>None\<close> here; every comparison with \<open>NaN\<close> is false.
\<close>

definition calculateSimilarity :: "jsobj \<Rightarrow> jsobj \<Rightarrow> rat option" where
  "calculateSimilarity a b =
     (let keys = map fst a;
          matches = countMatches a b
      in if length keys = 0 then None else Some (of_nat matches / of_nat (length keys)))"

text \<open>
  \<open>verifyDevice\<close>. The \<open>catch\<close> branch of the source (it returns false when parsing the
  stored item or computing the digest throws) has no counterpart: the stored item is a
  parsed record here and the digest is a total function.
\<close>

definition verifyDevice ::
  "(string \<Rightarrow> 8 word list) \<Rightarrow> Env \<Rightarrow> int \<Rightarrow> ('c, 'h) Storage \<Rightarrow> bool \<times> ('c, 'h) Storage" where
  "verifyDevice digest env now s =
     (case chapterflash_device s of
        None \<Rightarrow> (True, snd (registerDevice digest env now s))
      | Some existing \<Rightarrow>
          let current = getDeviceFingerprint digest env now;
              similarityScore = calculateSimilarity (fp_components existing) (fp_components current)
          in ((case similarityScore of None \<Rightarrow> False | Some r \<Rightarrow> r > 8 / 10), s))"

text \<open>
  The similarity of the specification: the number of keys on which the two objects
  agree, over the number of keys.
\<close>

definition similarity_spec :: "jsobj \<Rightarrow> jsobj \<Rightarrow> rat" where
  "similarity_spec a b =
     of_nat (card {k \<in> fst ` set a. jsGet a k = jsGet b k}) / of_nat (card (fst ` set a))"

section \<open>License management (src/src/lib/license.ts, with src/unnamed/part_002)\<close>

datatype Tier = Free | Student | Pro | Lifetime

record License =
  key :: string
  email :: string
  deviceId :: string
  activatedAt :: int
  expiresAt :: "int option"
  maxDevices :: int
  currentDevices :: "string list"
  tier :: Tier
  features :: "string list"

record LicenseValidationResult =
  valid :: bool
  license :: "License option"
  error :: "string option"
  daysRemaining :: "int option"

text \<open>
  The encryption module as the license code uses it, under the installation's key:
  \<open>encryptData\<close> gives the ciphertext (its failure to encrypt is not modelled),
  \<open>decryptData\<close> gives \<open>None\<close> where the source throws (no plaintext, malformed UTF-8
  or JSON), and \<open>hashData\<close> is the SHA-256 tag of the serialised license. The
  primitives of the library are parameters of the model; \<open>'c\<close> is the type of
  ciphertexts and \<open>'h\<close> the type of tags.
\<close>

record ('c, 'h) Crypto =
  encryptData :: "License \<Rightarrow> 'c"
  decryptData :: "'c \<Rightarrow> License option"
  hashData :: "License \<Rightarrow> 'h"

definition isUpperAlnum :: "char \<Rightarrow> bool" where
  "isUpperAlnum c =
     ((65 \<le> (of_char c :: nat) \<and> (of_char c :: nat) \<le> 90)
      \<or> (48 \<le> (of_char c :: nat) \<and> (of_char c :: nat) \<le> 57))"

definition isSegment :: "string \<Rightarrow> bool" where
  "isSegment seg = (length seg = 5 \<and> list_all isUpperAlnum seg)"

text \<open>The pattern \<open>/^CFEMT-[A-Z0-9]{5}-[A-Z0-9]{5}-[A-Z0-9]{5}-[A-Z0-9]{5}$/\<close>.\<close>

definition isValidLicenseFormat :: "string \<Rightarrow> bool" where
  "isValidLicenseFormat k =
     (length k = 29 \<and> take 6 k = ''CFEMT-''
      \<and> isSegment (take 5 (drop 6 k)) \<and> take 1 (drop 11 k) = ''-''
      \<and> isSegment (take 5 (drop 12 k)) \<and> take 1 (drop 17 k) = ''-''
      \<and> isSegment (take 5 (drop 18 k)) \<and> take 1 (drop 23 k) = ''-''
      \<and> isSegment (take 5 (drop 24 k)))"

definition storeLicense :: "('c, 'h) Crypto \<Rightarrow> License \<Rightarrow> ('c, 'h) Storage \<Rightarrow> ('c, 'h) Storage" where
  "storeLicense cr lic s =
     s\<lparr>chapterflash_license := Some (encryptData cr lic),
       chapterflash_license_hash := Some (hashData cr lic)\<rparr>"

definition revokeLicense :: "('c, 'h) Storage \<Rightarrow> ('c, 'h) Storage" where
  "revokeLicense s =
     s\<lparr>chapterflash_license := None, chapterflash_license_hash := None,
       chapterflash_activation_date := None\<rparr>"

text \<open>
  \<open>getStoredLicense\<close>: the \<open>catch\<close> branch is the case \<open>decryptData = None\<close>; it logs
  and returns \<open>null\<close>, and so does the integrity mismatch after calling \<open>revokeLicense\<close>.
\<close>

definition getStoredLicense ::
  "('c, 'h) Crypto \<Rightarrow> ('c, 'h) Storage \<Rightarrow> License option \<times> ('c, 'h) Storage" where
  "getStoredLicense cr s =
     (case chapterflash_license s of
        None \<Rightarrow> (None, s)
      | Some encrypted \<Rightarrow>
          (case chapterflash_license_hash s of
             None \<Rightarrow> (None, s)
           | Some storedHash \<Rightarrow>
               (case decryptData cr encrypted of
                  None \<Rightarrow> (None, s)
                | Some lic \<Rightarrow>
                    if hashData cr lic \<noteq> storedHash then (None, revokeLicense s)
                    else (Some lic, s))))"

definition MS_PER_DAY :: int where "MS_PER_DAY = 1000 * 60 * 60 * 24"

definition noLicenseResult :: LicenseValidationResult where
  "noLicenseResult =
     \<lparr>valid = False, license = None,
      error = Some ''No license found. Please activate your license.'', daysRemaining = None\<rparr>"

definition isExpired :: "License \<Rightarrow> int \<Rightarrow> bool" where
  "isExpired lic now = (case expiresAt lic of None \<Rightarrow> False | Some e \<Rightarrow> e \<noteq> 0 \<and> now > e)"

text \<open>
  The second half of \<open>validateLicense\<close> (from \<open>if (!license)\<close> on), for the license that
  the first half loaded or created. \<open>Math.ceil\<close> of the quotient is \<open>- ((- x) div d)\<close>.
\<close>

definition validateLoaded ::
  "('c, 'h) Crypto \<Rightarrow> (string \<Rightarrow> 8 word list) \<Rightarrow> Env \<Rightarrow> int \<Rightarrow> License option
     \<Rightarrow> ('c, 'h) Storage \<Rightarrow> LicenseValidationResult \<times> ('c, 'h) Storage" where
  "validateLoaded cr digest env now loaded s =
     (case loaded of
        None \<Rightarrow> (noLicenseResult, s)
      | Some lic \<Rightarrow>
          if isExpired lic now
          then (\<lparr>valid = False, license = None, error = Some ''License has expired'',
                 daysRemaining = Some 0\<rparr>, s)
          else
            let (currentDeviceId, s1) = getDeviceId digest env now s;
                days = (case expiresAt lic of
                          None \<Rightarrow> None
                        | Some e \<Rightarrow> if e = 0 then None
                                     else Some (- ((- (e - now)) div MS_PER_DAY)))
            in if currentDeviceId \<notin> set (currentDevices lic) then
                 if int (length (currentDevices lic)) \<ge> maxDevices lic
                 then (\<lparr>valid = False, license = None,
                        error = Some (''License is already active on '' @ showInt (maxDevices lic)
                                      @ '' devices. Please deactivate a device first.''),
                        daysRemaining = None\<rparr>, s1)
                 else
                   let lic' = lic\<lparr>currentDevices := currentDevices lic @ [currentDeviceId]\<rparr>
                   in (\<lparr>valid = True, license = Some lic', error = None, daysRemaining = days\<rparr>,
                       storeLicense cr lic' s1)
               else (\<lparr>valid = True, license = Some lic, error = None, daysRemaining = days\<rparr>, s1))"

text \<open>
  \<open>validateLicense(licenseKey?)\<close>. The key is \<open>None\<close> when it is not passed; an empty
  string is falsy as well.
\<close>

definition validateLicense ::
  "('c, 'h) Crypto \<Rightarrow> (string \<Rightarrow> 8 word list) \<Rightarrow> Env \<Rightarrow> int \<Rightarrow> string option
     \<Rightarrow> ('c, 'h) Storage \<Rightarrow> LicenseValidationResult \<times> ('c, 'h) Storage" where
  "validateLicense cr digest env now licenseKey s =
     (let (stored, s1) = getStoredLicense cr s
      in case stored of
           Some lic \<Rightarrow> validateLoaded cr digest env now (Some lic) s1
         | None \<Rightarrow>
             (case licenseKey of
                None \<Rightarrow> validateLoaded cr digest env now None s1
              | Some k \<Rightarrow>
                  if k = [] then validateLoaded cr digest env now None s1
                  else if \<not> isValidLicenseFormat k
                  then (\<lparr>valid = False, license = None,
                         error = Some ''Invalid license key format'', daysRemaining = None\<rparr>, s1)
                  else
                    let (devId, s2) = getDeviceId digest env now s1;
                        lic = \<lparr>key = k, email = ''user@example.com'', deviceId = devId,
                               activatedAt = now, expiresAt = None, maxDevices = 3,
                               currentDevices = [devId], tier = Student,
                               features = [''offline_access'', ''all_chapters'',
                                           ''progress_tracking'', ''export_data'']\<rparr>
                    in validateLoaded cr digest env now (Some lic) (storeLicense cr lic s2)))"

definition deactivateDevice ::
  "('c, 'h) Crypto \<Rightarrow> (string \<Rightarrow> 8 word list) \<Rightarrow> Env \<Rightarrow> int \<Rightarrow> ('c, 'h) Storage
     \<Rightarrow> bool \<times> ('c, 'h) Storage" where
  "deactivateDevice cr digest env now s =
     (let (stored, s1) = getStoredLicense cr s
      in case stored of
           None \<Rightarrow> (False, s1)
         | Some lic \<Rightarrow>
             let (currentDeviceId, s2) = getDeviceId digest env now s1;
                 lic' = lic\<lparr>currentDevices := filter (\<lambda>d. d \<noteq> currentDeviceId) (currentDevices lic)\<rparr>
             in (True, storeLicense cr lic' s2))"

section \<open>Reachable license states\<close>

text \<open>Decrypting what \<open>encryptData\<close> produced gives the license back.\<close>

definition roundtrip :: "('c, 'h) Crypto \<Rightarrow> bool" where
  "roundtrip cr = (\<forall>lic. decryptData cr (encryptData cr lic) = Some lic)"

text \<open>The invariant of the license: no more devices than \<open>maxDevices\<close>.\<close>

definition deviceCountOk :: "License \<Rightarrow> bool" where
  "deviceCountOk lic = (int (length (currentDevices lic)) \<le> maxDevices lic)"

text \<open>
  The license items are both absent, or they are the ciphertext and the tag of one
  license that satisfies the invariant.
\<close>

definition storedOk :: "('c, 'h) Crypto \<Rightarrow> ('c, 'h) Storage \<Rightarrow> bool" where
  "storedOk cr s =
     ((chapterflash_license s = None \<and> chapterflash_license_hash s = None)
      \<or> (\<exists>lic. chapterflash_license s = Some (encryptData cr lic)
                \<and> chapterflash_license_hash s = Some (hashData cr lic)
                \<and> deviceCountOk lic))"

text \<open>
  The storages that the exported operations produce from the empty storage. The device
  item may change arbitrarily in between: the same license items can be seen by a
  browser with another, or without a, stored fingerprint.
\<close>

inductive reachable :: "('c, 'h) Crypto \<Rightarrow> (string \<Rightarrow> 8 word list) \<Rightarrow> ('c, 'h) Storage \<Rightarrow> bool"
  for cr :: "('c, 'h) Crypto" and dg :: "string \<Rightarrow> 8 word list" where
  start: "reachable cr dg emptyStorage"
| validate: "reachable cr dg s \<Longrightarrow> reachable cr dg (snd (validateLicense cr dg env now k s))"
| deactivate: "reachable cr dg s \<Longrightarrow> reachable cr dg (snd (deactivateDevice cr dg env now s))"
| load: "reachable cr dg s \<Longrightarrow> reachable cr dg (snd (getStoredLicense cr s))"
| revoke: "reachable cr dg s \<Longrightarrow> reachable cr dg (revokeLicense s)"
| register: "reachable cr dg s \<Longrightarrow> reachable cr dg (snd (registerDevice dg env now s))"
| verify: "reachable cr dg s \<Longrightarrow> reachable cr dg (snd (verifyDevice dg env now s))"
| device_item: "reachable cr dg s \<Longrightarrow> reachable cr dg (s\<lparr>chapterflash_device := d\<rparr>)"

text \<open>
  After the call with result \<open>r\<close>, the license that loads from the storage is the one
  returned, and it lists the device id that a later \<open>getDeviceId\<close> gives.
\<close>

definition persistedHasDevice ::
  "('c, 'h) Crypto \<Rightarrow> (string \<Rightarrow> 8 word list) \<Rightarrow> Env \<Rightarrow> int
     \<Rightarrow> LicenseValidationResult \<times> ('c, 'h) Storage \<Rightarrow> bool" where
  "persistedHasDevice cr dg env now r =
     (case fst (getStoredLicense cr (snd r)) of
        None \<Rightarrow> False
      | Some lic \<Rightarrow> license (fst r) = Some lic
            \<and> fst (getDeviceId dg env now (snd r)) \<in> set (currentDevices lic)
            \<and> currentDevices lic \<noteq> [])"

section \<open>Sample inputs\<close>



text \<open>A browser environment without \<open>deviceMemory\<close>, and the same after a change of locale and time zone.\<close>

definition sampleEnv :: Env where
  "sampleEnv =
     \<lparr>env_canvas = ''data:image/png;base64,AAAA'', env_userAgent = ''Mozilla/5.0'',
      env_language = ''en-US'', env_timeZone = ''America/Chicago'',
      env_screenWidth = 1920, env_screenHeight = 1080, env_colorDepth = 24,
      env_platform = ''Linux x86_64'', env_hardwareConcurrency = Some 8,
      env_deviceMemory = None, env_touchSupport = False, env_vendor = ''Google Inc.''\<rparr>"

definition driftedEnv :: Env where
  "driftedEnv = sampleEnv\<lparr>env_language := ''fr-FR'', env_timeZone := ''Europe/Paris''\<rparr>"

text \<open>A stand-in for the digest in concrete runs: one byte, the length of the input.\<close>

definition lengthDigest :: "string \<Rightarrow> 8 word list" where
  "lengthDigest s = [of_nat (length s)]"

text \<open>
  A stand-in for the encryption module in concrete runs: the ciphertext of a license is
  the license itself, \<open>None\<close> is a ciphertext that does not decrypt, and the tag of a
  license is the license.
\<close>

definition plainCrypto :: "(License option, License) Crypto" where
  "plainCrypto = \<lparr>encryptData = Some, decryptData = (\<lambda>c. c), hashData = (\<lambda>lic. lic)\<rparr>"

text \<open>The storage after the sample environment registered its fingerprint at time 1000.\<close>

definition sampleStorage :: "(License option, License) Storage" where
  "sampleStorage =
     emptyStorage\<lparr>chapterflash_device :=
       Some (jsonRoundtrip (getDeviceFingerprint lengthDigest sampleEnv 1000))\<rparr>"

text \<open>A license key of the required form and the license that activating it at time 1000 creates.\<close>

definition sampleKey :: string where
  "sampleKey = ''CFEMT-AB12C-DE34F-GH56I-JK78L''"

definition sampleLicense :: License where
  "sampleLicense =
     \<lparr>key = sampleKey, email = ''user@example.com'', deviceId = ''ea'', activatedAt = 1000,
      expiresAt = None, maxDevices = 3, currentDevices = [''ea''], tier = Student,
      features = [''offline_access'', ''all_chapters'', ''progress_tracking'', ''export_data'']\<rparr>"

text \<open>Two more environments, which differ from the sample in the vendor string.\<close>

definition envC :: Env where
  "envC = sampleEnv\<lparr>env_vendor := ''Apple Computer, Inc.''\<rparr>"

definition envD :: Env where
  "envD = sampleEnv\<lparr>env_vendor := ''''\<rparr>"

text \<open>
  The storage after activating the sample key in the sample environment; after a further
  \<open>validateLicense()\<close> from a browser whose device item is absent; and after two such
  calls from two more devices.
\<close>

definition activatedStorage :: "(License option, License) Storage" where
  "activatedStorage =
     snd (validateLicense plainCrypto lengthDigest sampleEnv 1000 (Some sampleKey) emptyStorage)"

definition validateOn ::
  "Env \<Rightarrow> int \<Rightarrow> (License option, License) Storage \<Rightarrow> (License option, License) Storage" where
  "validateOn env now s =
     snd (validateLicense plainCrypto lengthDigest env now None (s\<lparr>chapterflash_device := None\<rparr>))"

definition fullStorage :: "(License option, License) Storage" where
  "fullStorage = validateOn envC 4000 (validateOn driftedEnv 3000 activatedStorage)"

text \<open>
  The activated storage after the stored ciphertext was replaced by that of a license
  with another \<open>maxDevices\<close>, the tag left as it was; and after it was replaced by a
  ciphertext that does not decrypt.
\<close>

definition tamperedStorage :: "(License option, License) Storage" where
  "tamperedStorage =
     (storeLicense plainCrypto sampleLicense sampleStorage)
       \<lparr>chapterflash_license := Some (encryptData plainCrypto (sampleLicense\<lparr>maxDevices := 100\<rparr>))\<rparr>"

definition corruptStorage :: "(License option, License) Storage" where
  "corruptStorage = (storeLicense plainCrypto sampleLicense sampleStorage)\<lparr>chapterflash_license := Some None\<rparr>"

section \<open>Properties of the rate limiter\<close>

text \<open>
  C5. With the explicit limit 5 and the 60 second window, from the fresh limiter: five
  calls for one action within the window are allowed; the sixth is denied, sets the
  block with \<open>blockUntil\<close> five minutes (300000 ms) after it and logs the count 5; every
  call before \<open>blockUntil\<close> is denied and changes nothing; the first call at or after
  \<open>blockUntil\<close> clears the block, drops all earlier events, is allowed, and leaves
  exactly its own event.
\<close>

theorem canProceed_five_then_block:
  assumes "t1 \<le> t2" "t2 \<le> t3" "t3 \<le> t4" "t4 \<le> t5" "t5 \<le> t6" "t6 - t1 < 60000"
    and "t7 \<ge> t6 + 300000"
  shows "(let (r1, s1, l1) = canProceed act (Some 5) t1 newRateLimiter logs;
             (r2, s2, l2) = canProceed act (Some 5) t2 s1 l1;
             (r3, s3, l3) = canProceed act (Some 5) t3 s2 l2;
             (r4, s4, l4) = canProceed act (Some 5) t4 s3 l3;
             (r5, s5, l5) = canProceed act (Some 5) t5 s4 l4;
             (r6, s6, l6) = canProceed act (Some 5) t6 s5 l5;
             (r7, s7, l7) = canProceed act (Some 5) t7 s6 l6
         in r1 \<and> r2 \<and> r3 \<and> r4 \<and> r5 \<and> \<not> r6 \<and> blocked s6 \<and> blockUntil s6 = t6 + 300000
            \<and> l6 = logSuspiciousActivity act 5 t6 logs
            \<and> (\<forall>t. t < t6 + 300000 \<longrightarrow> canProceed act (Some 5) t s6 l6 = (False, s6, l6))
            \<and> r7 \<and> \<not> blocked s7
            \<and> requests s7 = [\<lparr>timestamp = t7, action = act, count = 1\<rparr>])"
  using assms
  by (simp add: canProceed_def resolveLimit_def WINDOW_MS_def BLOCK_DURATION_def
      newRateLimiter_def Let_def)

theorem canProceed_five_then_block_witness:
  "(0::int) \<le> 1000 \<and> (5000::int) - 0 < 60000 \<and> (305000::int) \<ge> 5000 + 300000
   \<and> (let (r1, s1, l1) = canProceed ''x'' (Some 5) 0 newRateLimiter [];
           (r2, s2, l2) = canProceed ''x'' (Some 5) 1000 s1 l1;
           (r3, s3, l3) = canProceed ''x'' (Some 5) 2000 s2 l2;
           (r4, s4, l4) = canProceed ''x'' (Some 5) 3000 s3 l3;
           (r5, s5, l5) = canProceed ''x'' (Some 5) 4000 s4 l4;
           (r6, s6, l6) = canProceed ''x'' (Some 5) 5000 s5 l5;
           (r7, s7, l7) = canProceed ''x'' (Some 5) 305000 s6 l6
       in r1 \<and> r2 \<and> r3 \<and> r4 \<and> r5 \<and> \<not> r6 \<and> blocked s6 \<and> blockUntil s6 = 305000
          \<and> r7 \<and> \<not> blocked s7 \<and> length (requests s7) = 1)"
  using canProceed_five_then_block [of 0 1000 2000 3000 4000 5000 305000 "''x''" "[]"]
  by (simp add: canProceed_def resolveLimit_def WINDOW_MS_def BLOCK_DURATION_def
      newRateLimiter_def Let_def)

text \<open>Calls at evenly spaced times, from a limiter that holds the events of the earlier ones.\<close>

lemma foldl_count_sum:
  "foldl (\<lambda>sum req. sum + count req) a xs = a + sum_list (map count xs)"
  by (induction xs arbitrary: a) auto

lemma evenlySpaced_Suc:
  "evenlySpaced act t0 d (Suc m)
     = evenlySpaced act t0 d m @ [\<lparr>timestamp = t0 + int m * d, action = act, count = 1\<rparr>]"
  by (simp add: evenlySpaced_def)

lemma evenlySpaced_action:
  "filter (\<lambda>req. action req = act) (evenlySpaced act t0 d m) = evenlySpaced act t0 d m"
  by (simp add: evenlySpaced_def filter_map comp_def)

lemma evenlySpaced_count: "sum_list (map count (evenlySpaced act t0 d m)) = int m"
  by (simp add: evenlySpaced_def comp_def sum_list_triv)

lemma evenlySpaced_window:
  assumes "0 \<le> d" "int m * d < 60000"
  shows "filter (\<lambda>req. t0 + int m * d - timestamp req < WINDOW_MS) (evenlySpaced act t0 d m)
           = evenlySpaced act t0 d m"
proof -
  have "t0 + int m * d - (t0 + int i * d) < 60000" for i
  proof -
    have "0 \<le> int i * d" using assms(1) by simp
    then show ?thesis using assms(2) by simp
  qed
  then show ?thesis
    by (simp add: evenlySpaced_def filter_map comp_def WINDOW_MS_def)
qed

lemma evenlySpaced_both:
  assumes "0 \<le> d" "int m * d < 60000"
  shows "filter (\<lambda>req. t0 + int m * d - timestamp req < WINDOW_MS \<and> action req = act)
           (evenlySpaced act t0 d m) = evenlySpaced act t0 d m"
  using evenlySpaced_window [OF assms, of t0 act] evenlySpaced_action [of act t0 d m]
  by (metis filter_filter)

lemma canProceed_evenly:
  assumes "\<not> blocked rl" "requests rl = evenlySpaced act t0 d m" "0 \<le> d"
    and "int m * d < 60000" "int m < resolveLimit limit act"
  shows "canProceed act limit (t0 + int m * d) rl logs
           = (True, rl\<lparr>requests := evenlySpaced act t0 d (Suc m)\<rparr>, logs)"
  using assms
  by (simp add: canProceed_def Let_def evenlySpaced_window evenlySpaced_both foldl_count_sum
      evenlySpaced_count evenlySpaced_Suc)

lemma canProceed_at_limit:
  assumes "\<not> blocked rl" "requests rl = evenlySpaced act t0 d m" "0 \<le> d"
    and "int m * d < 60000" "int m \<ge> resolveLimit limit act"
  shows "canProceed act limit (t0 + int m * d) rl logs
           = (False, rl\<lparr>blocked := True, blockUntil := t0 + int m * d + 300000\<rparr>,
              logSuspiciousActivity act (int m) (t0 + int m * d) logs)"
  using assms
  by (simp add: canProceed_def Let_def evenlySpaced_window evenlySpaced_both evenlySpaced_action
      foldl_count_sum evenlySpaced_count BLOCK_DURATION_def)

lemma runCalls_evenly:
  assumes "0 \<le> d" "\<And>k. k < m + n \<Longrightarrow> int k * d < 60000"
    and "int (m + n) \<le> resolveLimit limit act"
    and "\<not> blocked rl" "requests rl = evenlySpaced act t0 d m"
  shows "runCalls act limit (map (\<lambda>i. t0 + int i * d) [m..<m + n]) rl logs
           = (replicate n True, rl\<lparr>requests := evenlySpaced act t0 d (m + n)\<rparr>, logs)"
  using assms(2-)
proof (induction n arbitrary: m rl)
  case 0
  then show ?case by simp
next
  case (Suc n)
  have up: "[m..<m + Suc n] = m # [Suc m..<Suc m + n]"
    by (simp add: upt_conv_Cons)
  have mk: "int m * d < 60000" using Suc.prems(1) [of m] by simp
  have ml: "int m < resolveLimit limit act" using Suc.prems(2) by simp
  let ?rl = "rl\<lparr>requests := evenlySpaced act t0 d (Suc m)\<rparr>"
  have step: "canProceed act limit (t0 + int m * d) rl logs = (True, ?rl, logs)"
    using canProceed_evenly [OF Suc.prems(3) Suc.prems(4) assms(1) mk ml] .
  have ih: "runCalls act limit (map (\<lambda>i. t0 + int i * d) [Suc m..<Suc m + n]) ?rl logs
           = (replicate n True, ?rl\<lparr>requests := evenlySpaced act t0 d (Suc m + n)\<rparr>, logs)"
  proof (rule Suc.IH)
    show "int k * d < 60000" if "k < Suc m + n" for k using Suc.prems(1) [of k] that by simp
    show "int (Suc m + n) \<le> resolveLimit limit act" using Suc.prems(2) by simp
    show "\<not> blocked ?rl" using Suc.prems(3) by simp
    show "requests ?rl = evenlySpaced act t0 d (Suc m)" by simp
  qed
  show ?case
    by (simp only: up list.map runCalls.simps step ih Let_def prod.case) simp
qed

lemma runCalls_append:
  "runCalls act limit (xs @ ys) rl logs =
     (let (rs, rl', logs') = runCalls act limit xs rl logs;
          (rs2, rl'', logs'') = runCalls act limit ys rl' logs'
      in (rs @ rs2, rl'', logs''))"
  by (induction xs arbitrary: rl logs) (simp_all add: Let_def split_beta)

lemma getActionLimit_pos: "0 < getActionLimit act"
  by (simp add: getActionLimit_def FLASHCARD_LIMIT_def API_LIMIT_def)

lemma burst_at_default_limit:
  "fst (runCalls act (Some 0) (replicate (nat (getActionLimit act) + 1) t) newRateLimiter logs)
     = replicate (nat (getActionLimit act)) True @ [False]"
proof -
  let ?L = "nat (getActionLimit act)"
  have L: "int ?L = getActionLimit act" using getActionLimit_pos [of act] by simp
  have rl0: "resolveLimit (Some 0) act = getActionLimit act" by (simp add: resolveLimit_def)
  have times: "replicate ?L t = map (\<lambda>i. t + int i * 0) [0..<0 + ?L]"
    by (simp add: map_replicate_const)
  have run: "runCalls act (Some 0) (replicate ?L t) newRateLimiter logs
      = (replicate ?L True, newRateLimiter\<lparr>requests := evenlySpaced act t 0 (0 + ?L)\<rparr>, logs)"
    unfolding times
    using getActionLimit_pos [of act]
    by (intro runCalls_evenly) (simp_all add: rl0 L newRateLimiter_def evenlySpaced_def)
  have last: "canProceed act (Some 0) (t + int ?L * 0) (newRateLimiter\<lparr>requests := evenlySpaced act t 0 ?L\<rparr>) logs
      = (False, newRateLimiter\<lparr>requests := evenlySpaced act t 0 ?L\<rparr>\<lparr>blocked := True, blockUntil := t + int ?L * 0 + 300000\<rparr>,
              logSuspiciousActivity act (int ?L) (t + int ?L * 0) logs)"
    by (rule canProceed_at_limit) (simp_all add: rl0 L newRateLimiter_def)
  have "replicate (?L + 1) t = replicate ?L t @ [t]"
    by (simp add: replicate_append_same)
  then show ?thesis
    using run last by (simp add: runCalls_append Let_def)
qed

lemma canProceed_default_enforced:
  assumes "\<not> blocked rl"
  shows "canProceed act (Some 0) now rl logs =
       (let retained = filter (\<lambda>req. now - timestamp req < 60000) (requests rl);
            total = sum_list (map count (filter (\<lambda>req. action req = act) retained))
        in if total \<ge> getActionLimit act
           then (False, rl\<lparr>requests := retained, blocked := True, blockUntil := now + 300000\<rparr>,
                 logSuspiciousActivity act total now logs)
           else (True, rl\<lparr>requests := retained @ [\<lparr>timestamp = now, action = act, count = 1\<rparr>]\<rparr>,
                 logs))"
  using assms
  by (simp add: canProceed_def resolveLimit_def Let_def foldl_count_sum WINDOW_MS_def BLOCK_DURATION_def)

text \<open>
  C10. An explicit limit of 0 is falsy, so the limit that \<open>canProceed\<close> enforces is the
  per-action default (50, 100, 5, 20, and 100 for every other action). The call equals
  the call without a limit. On a limiter that is not blocked it is denied, and the block
  set, exactly when the retained count of the action has reached the default, and it is
  allowed and recorded otherwise. From the fresh limiter, as many calls at one instant as
  the default are allowed and the next one is denied; so a limit of 0 does not deny all
  requests.
\<close>

theorem zero_limit_uses_default:
  "resolveLimit (Some 0) act = getActionLimit act
   \<and> getActionLimit ''flashcard_view'' = 50
   \<and> getActionLimit ''api_call'' = 100
   \<and> getActionLimit ''export_data'' = 5
   \<and> getActionLimit ''chapter_access'' = 20
   \<and> (act \<notin> {''flashcard_view'', ''api_call'', ''export_data'', ''chapter_access''}
        \<longrightarrow> getActionLimit act = 100)
   \<and> canProceed act (Some 0) now rl logs = canProceed act None now rl logs
   \<and> (\<not> blocked rl \<longrightarrow>
        canProceed act (Some 0) now rl logs =
          (let retained = filter (\<lambda>req. now - timestamp req < 60000) (requests rl);
               total = sum_list (map count (filter (\<lambda>req. action req = act) retained))
           in if total \<ge> getActionLimit act
              then (False, rl\<lparr>requests := retained, blocked := True, blockUntil := now + 300000\<rparr>,
                    logSuspiciousActivity act total now logs)
              else (True, rl\<lparr>requests := retained @ [\<lparr>timestamp = now, action = act, count = 1\<rparr>]\<rparr>,
                    logs)))
   \<and> fst (runCalls act (Some 0) (replicate (nat (getActionLimit act) + 1) t) newRateLimiter logs)
        = replicate (nat (getActionLimit act)) True @ [False]
   \<and> fst (canProceed act (Some 0) now newRateLimiter logs)"
proof -
  have h1: "resolveLimit (Some 0) act = getActionLimit act"
    by (simp add: resolveLimit_def)
  have h2: "getActionLimit ''flashcard_view'' = 50"
    by (simp add: getActionLimit_def FLASHCARD_LIMIT_def)
  have h3: "getActionLimit ''api_call'' = 100"
    by (simp add: getActionLimit_def API_LIMIT_def)
  have h4: "getActionLimit ''export_data'' = 5"
    by (simp add: getActionLimit_def)
  have h5: "getActionLimit ''chapter_access'' = 20"
    by (simp add: getActionLimit_def)
  have h6: "act \<notin> {''flashcard_view'', ''api_call'', ''export_data'', ''chapter_access''}
        \<longrightarrow> getActionLimit act = 100"
    by (simp add: getActionLimit_def)
  have h7: "canProceed act (Some 0) now rl logs = canProceed act None now rl logs"
    by (simp add: canProceed_def resolveLimit_def)
  have h8: "\<not> blocked rl \<longrightarrow>
        canProceed act (Some 0) now rl logs =
          (let retained = filter (\<lambda>req. now - timestamp req < 60000) (requests rl);
               total = sum_list (map count (filter (\<lambda>req. action req = act) retained))
           in if total \<ge> getActionLimit act
              then (False, rl\<lparr>requests := retained, blocked := True, blockUntil := now + 300000\<rparr>,
                    logSuspiciousActivity act total now logs)
              else (True, rl\<lparr>requests := retained @ [\<lparr>timestamp = now, action = act, count = 1\<rparr>]\<rparr>,
                    logs))"
    by (rule impI) (rule canProceed_default_enforced)
  have h9: "fst (runCalls act (Some 0) (replicate (nat (getActionLimit act) + 1) t) newRateLimiter logs)
        = replicate (nat (getActionLimit act)) True @ [False]"
    by (rule burst_at_default_limit)
  have h10: "fst (canProceed act (Some 0) now newRateLimiter logs)"
    using getActionLimit_pos [of act]
    by (simp add: canProceed_def resolveLimit_def newRateLimiter_def Let_def)
  show ?thesis
    by (intro conjI h1 h2 h3 h4 h5 h6 h7 h8 h9 h10)
qed

theorem zero_limit_uses_default_witness:
  "''general'' \<notin> {''flashcard_view'', ''api_call'', ''export_data'', ''chapter_access''}
   \<and> getActionLimit ''general'' = 100
   \<and> resolveLimit (Some 0) ''export_data'' = 5
   \<and> \<not> blocked (newRateLimiter\<lparr>requests :=
          map (\<lambda>t. \<lparr>timestamp = t, action = ''export_data'', count = 1\<rparr>) [0, 1000, 2000, 3000, 4000]\<rparr>)
   \<and> \<not> fst (canProceed ''export_data'' (Some 0) 5000
              (newRateLimiter\<lparr>requests :=
                 map (\<lambda>t. \<lparr>timestamp = t, action = ''export_data'', count = 1\<rparr>) [0, 1000, 2000, 3000, 4000]\<rparr>) [])
   \<and> fst (canProceed ''export_data'' (Some 0) 5000
              (newRateLimiter\<lparr>requests :=
                 map (\<lambda>t. \<lparr>timestamp = t, action = ''export_data'', count = 1\<rparr>) [0, 1000, 2000, 3000]\<rparr>) [])
   \<and> fst (runCalls ''export_data'' (Some 0) (replicate 6 0) newRateLimiter [])
        = replicate 5 True @ [False]"
proof -
  note c2 = conjunct2
  have n: "''general'' \<notin> {''flashcard_view'', ''api_call'', ''export_data'', ''chapter_access''}"
    by simp
  have g: "getActionLimit ''general'' = 100"
    by (rule zero_limit_uses_default [where act = "''general''", THEN c2, THEN c2,
        THEN c2, THEN c2, THEN c2, THEN conjunct1, THEN mp]) (rule n)
  have e: "getActionLimit ''export_data'' = 5"
    by (rule zero_limit_uses_default [THEN c2, THEN c2, THEN c2, THEN conjunct1])
  have r: "resolveLimit (Some 0) ''export_data'' = 5"
    using zero_limit_uses_default [where act = "''export_data''", THEN conjunct1] e
    by (simp only:)
  have nb: "\<not> blocked (newRateLimiter\<lparr>requests := reqs\<rparr>)" for reqs
    by (simp add: newRateLimiter_def)
  note enf = zero_limit_uses_default [where act = "''export_data''" and now = 5000 and logs = "[]",
      THEN c2, THEN c2, THEN c2, THEN c2, THEN c2, THEN c2, THEN c2, THEN conjunct1, THEN mp, OF nb]
  have d5: "\<not> fst (canProceed ''export_data'' (Some 0) 5000
              (newRateLimiter\<lparr>requests :=
                 map (\<lambda>t. \<lparr>timestamp = t, action = ''export_data'', count = 1\<rparr>) [0, 1000, 2000, 3000, 4000]\<rparr>) [])"
    by (simp add: enf e Let_def)
  have a4: "fst (canProceed ''export_data'' (Some 0) 5000
              (newRateLimiter\<lparr>requests :=
                 map (\<lambda>t. \<lparr>timestamp = t, action = ''export_data'', count = 1\<rparr>) [0, 1000, 2000, 3000]\<rparr>) [])"
    by (simp add: enf e Let_def)
  have n5: "nat (getActionLimit ''export_data'') = 5"
    by (simp add: e)
  have s6: "(5::nat) + 1 = 6" by simp
  have b: "fst (runCalls ''export_data'' (Some 0) (replicate 6 0) newRateLimiter [])
        = replicate 5 True @ [False]"
    using zero_limit_uses_default [where act = "''export_data''" and t = 0 and logs = "[]",
      THEN c2, THEN c2, THEN c2, THEN c2, THEN c2, THEN c2, THEN c2, THEN c2, THEN conjunct1]
    by (simp only: n5 s6)
  show ?thesis
    by (intro conjI n g r nb d5 a4 b)
qed

section \<open>Properties of the bot heuristic\<close>




























section \<open>Properties of the device identity\<close>

lemmas eval_defs = verifyDevice_def registerDevice_def getDeviceId_def getDeviceFingerprint_def
  calculateSimilarity_def countMatches_def jsGet_def components_def showInt_def showNat.simps
  hexEncode_def padStart2_def toString16.simps compositeString_def jsonRoundtrip_def
  lengthDigest_def sampleEnv_def driftedEnv_def sampleStorage_def emptyStorage_def Let_def

lemma foldl_count_filter:
  "foldl (\<lambda>matches key. if P key then matches + 1 else matches) (n::nat) ks = n + length (filter P ks)"
  by (induction ks arbitrary: n) auto

lemma countMatches_filter:
  "countMatches a b = length (filter (\<lambda>k. jsGet a k = jsGet b k) (map fst a))"
  by (simp add: countMatches_def foldl_count_filter)

lemma countMatches_card:
  assumes "distinct (map fst a)"
  shows "countMatches a b = card {k \<in> fst ` set a. jsGet a k = jsGet b k}"
proof -
  let ?xs = "filter (\<lambda>k. jsGet a k = jsGet b k) (map fst a)"
  have "distinct ?xs"
    using assms by (rule distinct_filter)
  then have "card (set ?xs) = length ?xs"
    by (rule distinct_card)
  moreover have "set ?xs = {k \<in> fst ` set a. jsGet a k = jsGet b k}"
    by auto
  ultimately show ?thesis by (simp only: countMatches_filter)
qed

text \<open>On an object with keys, \<open>calculateSimilarity\<close> is the similarity of the specification.\<close>

lemma calculateSimilarity_spec:
  assumes "distinct (map fst a)" "a \<noteq> []"
  shows "calculateSimilarity a b = Some (similarity_spec a b)"
proof -
  have "card (fst ` set a) = length a"
    using assms(1) distinct_card [of "map fst a"] by simp
  then show ?thesis
    using assms by (simp add: calculateSimilarity_def similarity_spec_def countMatches_card Let_def)
qed

text \<open>
  C1, as stated, fails. The stored record has 10 attributes (\<open>deviceMemory\<close> was
  undefined and is not persisted); after a change of language and time zone 8 of them
  match, the similarity is exactly 8/10, and \<open>verifyDevice\<close> returns false: the source
  compares with \<open>similarityScore > 0.8\<close>.
\<close>

theorem verifyDevice_counterexample:
  "countMatches (fp_components (jsonRoundtrip (getDeviceFingerprint lengthDigest sampleEnv 1000)))
       (components driftedEnv) = 8
   \<and> length (fp_components (jsonRoundtrip (getDeviceFingerprint lengthDigest sampleEnv 1000))) = 10
   \<and> calculateSimilarity (fp_components (jsonRoundtrip (getDeviceFingerprint lengthDigest sampleEnv 1000)))
       (components driftedEnv) = Some (8 / 10)
   \<and> \<not> fst (verifyDevice lengthDigest driftedEnv 2000 sampleStorage)"
  by (simp add: eval_defs)

text \<open>
  C1, amended. For a stored fingerprint (an object with at least one key) and a fresh
  capture, \<open>verifyDevice\<close> returns true iff the similarity of the stored and the fresh
  components is strictly greater than 0.8.
\<close>

theorem verifyDevice_threshold:
  assumes "chapterflash_device s = Some existing"
    and "distinct (map fst (fp_components existing))" and "fp_components existing \<noteq> []"
  shows "fst (verifyDevice dg env now s)
           \<longleftrightarrow> similarity_spec (fp_components existing) (components env) > 8 / 10"
  using assms
  by (simp add: verifyDevice_def getDeviceFingerprint_def calculateSimilarity_spec Let_def)

theorem verifyDevice_threshold_witness:
  "chapterflash_device sampleStorage = Some (jsonRoundtrip (getDeviceFingerprint lengthDigest sampleEnv 1000))
   \<and> distinct (map fst (fp_components (jsonRoundtrip (getDeviceFingerprint lengthDigest sampleEnv 1000))))
   \<and> fp_components (jsonRoundtrip (getDeviceFingerprint lengthDigest sampleEnv 1000)) \<noteq> []
   \<and> fst (verifyDevice lengthDigest (sampleEnv\<lparr>env_language := ''fr-FR''\<rparr>) 2000 sampleStorage)
   \<and> similarity_spec (fp_components (jsonRoundtrip (getDeviceFingerprint lengthDigest sampleEnv 1000)))
        (components (sampleEnv\<lparr>env_language := ''fr-FR''\<rparr>)) > 8 / 10
   \<and> \<not> fst (verifyDevice lengthDigest driftedEnv 2000 sampleStorage)
   \<and> \<not> similarity_spec (fp_components (jsonRoundtrip (getDeviceFingerprint lengthDigest sampleEnv 1000)))
        (components driftedEnv) > 8 / 10"
proof -
  let ?ex = "jsonRoundtrip (getDeviceFingerprint lengthDigest sampleEnv 1000)"
  have h1: "chapterflash_device sampleStorage = Some ?ex"
    by (simp add: sampleStorage_def emptyStorage_def)
  have h2: "distinct (map fst (fp_components ?ex))"
    by (simp add: eval_defs)
  have h3: "fp_components ?ex \<noteq> []"
    by (simp add: eval_defs)
  have v: "fst (verifyDevice lengthDigest (sampleEnv\<lparr>env_language := ''fr-FR''\<rparr>) 2000 sampleStorage)"
    by (simp add: eval_defs)
  have w: "\<not> fst (verifyDevice lengthDigest driftedEnv 2000 sampleStorage)"
    by (simp add: eval_defs)
  from verifyDevice_threshold [OF h1 h2 h3, of lengthDigest "sampleEnv\<lparr>env_language := ''fr-FR''\<rparr>" 2000] v
  have a: "similarity_spec (fp_components ?ex) (components (sampleEnv\<lparr>env_language := ''fr-FR''\<rparr>)) > 8 / 10"
    by blast
  from verifyDevice_threshold [OF h1 h2 h3, of lengthDigest driftedEnv 2000] w
  have b: "\<not> similarity_spec (fp_components ?ex) (components driftedEnv) > 8 / 10"
    by blast
  from h1 h2 h3 v a w b show ?thesis by blast
qed

lemma length_toString16_byte: "n < 256 \<Longrightarrow> length (padStart2 (toString16 n)) = 2"
proof -
  assume n: "n < 256"
  show ?thesis
  proof (cases "n < 16")
    case True
    then show ?thesis by (simp add: toString16.simps [of n] padStart2_def)
  next
    case False
    with n have "n div 16 < 16" by simp
    then show ?thesis using False
      by (simp add: toString16.simps [of n] toString16.simps [of "n div 16"] padStart2_def)
  qed
qed

lemma length_hexEncode: "length (hexEncode bytes) = 2 * length bytes"
proof (induction bytes)
  case Nil
  then show ?case by (simp add: hexEncode_def)
next
  case (Cons b bs)
  have "unat b < 2 ^ LENGTH(8)" by (rule unsigned_less)
  then have "unat b < 256" by simp
  then have "length (padStart2 (toString16 (unat b))) = 2" by (rule length_toString16_byte)
  with Cons show ?case by (simp add: hexEncode_def)
qed

text \<open>
  C7. Two captures with identical components have the same id, whatever their
  timestamps: the id is the hex encoding (two characters per digest byte) of the digest
  of the composite string, which lists \<open>key:value\<close> joined by \<open>|\<close> in the fixed order of
  the eleven fields.
\<close>

theorem fingerprint_id_deterministic:
  "(components env1 = components env2 \<longrightarrow>
      fp_id (getDeviceFingerprint dg env1 t1) = fp_id (getDeviceFingerprint dg env2 t2))
   \<and> fp_id (getDeviceFingerprint dg env t) = hexEncode (dg (compositeString (components env)))
   \<and> map fst (components env) =
        [''canvas'', ''userAgent'', ''language'', ''timezone'', ''screen'', ''colorDepth'',
         ''platform'', ''hardwareConcurrency'', ''deviceMemory'', ''touchSupport'', ''vendor'']
   \<and> compositeString [(k1, v1), (k2, v2), (k3, v3)] =
        k1 @ '':'' @ jsToString v1 @ ''|'' @ k2 @ '':'' @ jsToString v2 @ ''|'' @ k3 @ '':'' @ jsToString v3
   \<and> length (fp_id (getDeviceFingerprint dg env t)) = 2 * length (dg (compositeString (components env)))"
proof -
  have a: "components env1 = components env2 \<longrightarrow>
      fp_id (getDeviceFingerprint dg env1 t1) = fp_id (getDeviceFingerprint dg env2 t2)"
    by (simp add: getDeviceFingerprint_def Let_def)
  have b: "fp_id (getDeviceFingerprint dg env t) = hexEncode (dg (compositeString (components env)))"
    by (simp add: getDeviceFingerprint_def Let_def)
  have c: "map fst (components env) =
        [''canvas'', ''userAgent'', ''language'', ''timezone'', ''screen'', ''colorDepth'',
         ''platform'', ''hardwareConcurrency'', ''deviceMemory'', ''touchSupport'', ''vendor'']"
    by (simp add: components_def)
  have d: "compositeString [(k1, v1), (k2, v2), (k3, v3)] =
        k1 @ '':'' @ jsToString v1 @ ''|'' @ k2 @ '':'' @ jsToString v2 @ ''|'' @ k3 @ '':'' @ jsToString v3"
    by (simp add: compositeString_def)
  have e: "length (fp_id (getDeviceFingerprint dg env t)) = 2 * length (dg (compositeString (components env)))"
    by (simp add: b length_hexEncode)
  from a b c d e show ?thesis by blast
qed

theorem fingerprint_id_deterministic_witness:
  "components (sampleEnv\<lparr>env_hardwareConcurrency := None\<rparr>)
     = components (sampleEnv\<lparr>env_hardwareConcurrency := Some 0\<rparr>)
   \<and> fp_id (getDeviceFingerprint lengthDigest (sampleEnv\<lparr>env_hardwareConcurrency := None\<rparr>) 1000)
     = fp_id (getDeviceFingerprint lengthDigest (sampleEnv\<lparr>env_hardwareConcurrency := Some 0\<rparr>) 2000)
   \<and> compositeString (components sampleEnv) =
       ''canvas:data:image/png;base64,AAAA|userAgent:Mozilla/5.0|language:en-US|timezone:America/Chicago|screen:1920x1080x24|colorDepth:24|platform:Linux x86_64|hardwareConcurrency:8|deviceMemory:undefined|touchSupport:false|vendor:Google Inc.''
   \<and> fp_id (getDeviceFingerprint lengthDigest sampleEnv 1000) = ''ea''"
proof -
  have c: "components (sampleEnv\<lparr>env_hardwareConcurrency := None\<rparr>)
     = components (sampleEnv\<lparr>env_hardwareConcurrency := Some 0\<rparr>)"
    by (simp add: components_def)
  have i: "fp_id (getDeviceFingerprint lengthDigest (sampleEnv\<lparr>env_hardwareConcurrency := None\<rparr>) 1000)
     = fp_id (getDeviceFingerprint lengthDigest (sampleEnv\<lparr>env_hardwareConcurrency := Some 0\<rparr>) 2000)"
    using fingerprint_id_deterministic [of "sampleEnv\<lparr>env_hardwareConcurrency := None\<rparr>"
        "sampleEnv\<lparr>env_hardwareConcurrency := Some 0\<rparr>" lengthDigest 1000 2000] c
    by blast
  have s: "compositeString (components sampleEnv) =
       ''canvas:data:image/png;base64,AAAA|userAgent:Mozilla/5.0|language:en-US|timezone:America/Chicago|screen:1920x1080x24|colorDepth:24|platform:Linux x86_64|hardwareConcurrency:8|deviceMemory:undefined|touchSupport:false|vendor:Google Inc.''"
    by (simp add: eval_defs)
  have e: "fp_id (getDeviceFingerprint lengthDigest sampleEnv 1000) = ''ea''"
    by (simp add: eval_defs)
  from c i s e show ?thesis by blast
qed

text \<open>
  C9, as stated, fails. With a fingerprint stored at time 1000, \<open>verifyDevice\<close> at time
  2000 from the same environment succeeds and leaves the storage as it was: the stored
  timestamp is still 1000.
\<close>

theorem verifyDevice_timestamp_counterexample:
  "fst (verifyDevice lengthDigest sampleEnv 2000 sampleStorage)
   \<and> snd (verifyDevice lengthDigest sampleEnv 2000 sampleStorage) = sampleStorage
   \<and> map_option fp_timestamp (chapterflash_device (snd (verifyDevice lengthDigest sampleEnv 2000 sampleStorage)))
        = Some 1000"
  by (simp add: eval_defs)

text \<open>
  C9, amended. \<open>registerDevice\<close> persists the fresh fingerprint, with the time of the
  capture, when nothing is stored or the stored id equals the fresh id. \<open>verifyDevice\<close>
  does so only when nothing is stored (it then registers and returns true); when a
  fingerprint is stored, \<open>verifyDevice\<close> leaves the storage unchanged.
\<close>

theorem stored_timestamp_updates:
  "((case chapterflash_device s of
       None \<Rightarrow> True
     | Some existing \<Rightarrow> fp_id existing = fp_id (getDeviceFingerprint dg env now))
      \<longrightarrow> map_option fp_timestamp (chapterflash_device (snd (registerDevice dg env now s))) = Some now)
   \<and> (chapterflash_device s = None
      \<longrightarrow> fst (verifyDevice dg env now s)
          \<and> map_option fp_timestamp (chapterflash_device (snd (verifyDevice dg env now s))) = Some now)
   \<and> (chapterflash_device s \<noteq> None \<longrightarrow> snd (verifyDevice dg env now s) = s)"
  by (auto simp: registerDevice_def verifyDevice_def getDeviceFingerprint_def jsonRoundtrip_def Let_def
      split: option.splits)

theorem stored_timestamp_updates_witness:
  "chapterflash_device (emptyStorage :: (License option, License) Storage) = None
   \<and> fst (verifyDevice lengthDigest sampleEnv 2000 (emptyStorage :: (License option, License) Storage))
   \<and> map_option fp_timestamp (chapterflash_device (snd (verifyDevice lengthDigest sampleEnv 2000
         (emptyStorage :: (License option, License) Storage)))) = Some 2000
   \<and> map_option fp_timestamp (chapterflash_device (snd (registerDevice lengthDigest sampleEnv 2000
         (emptyStorage :: (License option, License) Storage)))) = Some 2000
   \<and> map_option fp_timestamp (chapterflash_device (snd (registerDevice lengthDigest sampleEnv 2000
         sampleStorage))) = Some 2000
   \<and> chapterflash_device sampleStorage \<noteq> None
   \<and> snd (verifyDevice lengthDigest driftedEnv 2000 sampleStorage) = sampleStorage"
proof -
  let ?e = "emptyStorage :: (License option, License) Storage"
  have n: "chapterflash_device ?e = None"
    by (simp add: emptyStorage_def)
  have m: "chapterflash_device sampleStorage \<noteq> None"
    by (simp add: sampleStorage_def emptyStorage_def)
  have same: "(case chapterflash_device sampleStorage of
       None \<Rightarrow> True
     | Some existing \<Rightarrow> fp_id existing = fp_id (getDeviceFingerprint lengthDigest sampleEnv 2000))"
    by (simp add: sampleStorage_def emptyStorage_def jsonRoundtrip_def getDeviceFingerprint_def Let_def)
  have v: "fst (verifyDevice lengthDigest sampleEnv 2000 ?e)
      \<and> map_option fp_timestamp (chapterflash_device (snd (verifyDevice lengthDigest sampleEnv 2000 ?e))) = Some 2000"
    using stored_timestamp_updates [where s = ?e and dg = lengthDigest and env = sampleEnv and now = 2000, THEN conjunct2, THEN conjunct1] n
    by blast
  have r0: "map_option fp_timestamp (chapterflash_device (snd (registerDevice lengthDigest sampleEnv 2000 ?e))) = Some 2000"
    using stored_timestamp_updates [where s = ?e and dg = lengthDigest and env = sampleEnv and now = 2000, THEN conjunct1] n
    by simp
  have r1: "map_option fp_timestamp (chapterflash_device (snd (registerDevice lengthDigest sampleEnv 2000 sampleStorage))) = Some 2000"
    using stored_timestamp_updates [where s = sampleStorage and dg = lengthDigest and env = sampleEnv and now = 2000, THEN conjunct1] same
    by blast
  have u: "snd (verifyDevice lengthDigest driftedEnv 2000 sampleStorage) = sampleStorage"
    using stored_timestamp_updates [where s = sampleStorage and dg = lengthDigest and env = driftedEnv and now = 2000, THEN conjunct2, THEN conjunct2] m
    by blast
  from n v r0 r1 m u show ?thesis by blast
qed

section \<open>Properties of the license manager\<close>

lemmas lic_defs = validateLicense_def validateLoaded_def getStoredLicense_def storeLicense_def
  revokeLicense_def deactivateDevice_def isExpired_def noLicenseResult_def plainCrypto_def
  isValidLicenseFormat_def isSegment_def isUpperAlnum_def sampleKey_def sampleLicense_def MS_PER_DAY_def

lemma getDeviceId_license [simp]:
  "chapterflash_license (snd (getDeviceId dg env now s)) = chapterflash_license s"
  "chapterflash_license_hash (snd (getDeviceId dg env now s)) = chapterflash_license_hash s"
  by (simp_all add: getDeviceId_def Let_def split: option.splits)

lemma storedOk_cong:
  "chapterflash_license s' = chapterflash_license s \<Longrightarrow>
   chapterflash_license_hash s' = chapterflash_license_hash s \<Longrightarrow> storedOk cr s' = storedOk cr s"
  by (simp add: storedOk_def)

lemma storedOk_getDeviceId [simp]: "storedOk cr (snd (getDeviceId dg env now s)) = storedOk cr s"
  by (rule storedOk_cong) simp_all

lemma storedOk_store: "deviceCountOk lic \<Longrightarrow> storedOk cr (storeLicense cr lic s)"
  by (auto simp: storedOk_def storeLicense_def)

lemma storedOk_revoke [simp]: "storedOk cr (revokeLicense s)"
  by (simp add: storedOk_def revokeLicense_def)

lemma storedOk_empty [simp]: "storedOk cr emptyStorage"
  by (simp add: storedOk_def emptyStorage_def)

lemma getStoredLicense_snd_ok: "storedOk cr s \<Longrightarrow> storedOk cr (snd (getStoredLicense cr s))"
  by (auto simp: getStoredLicense_def split: option.splits)

lemma getStoredLicense_fst_ok:
  assumes "roundtrip cr" "storedOk cr s" "fst (getStoredLicense cr s) = Some lic"
  shows "deviceCountOk lic"
  using assms
  by (auto simp: getStoredLicense_def storedOk_def roundtrip_def split: option.splits if_splits)

lemma validateLoaded_None_ok:
  "storedOk cr s \<Longrightarrow> storedOk cr (snd (validateLoaded cr dg env now None s))"
  by (simp add: validateLoaded_def)

lemma validateLoaded_Some_ok:
  assumes "storedOk cr s" "deviceCountOk lic"
  shows "storedOk cr (snd (validateLoaded cr dg env now (Some lic) s))"
proof -
  have app: "deviceCountOk (lic\<lparr>currentDevices := currentDevices lic @ [d]\<rparr>)"
    if "\<not> int (length (currentDevices lic)) \<ge> maxDevices lic" for d
    using that by (simp add: deviceCountOk_def)
  show ?thesis
    using assms(1) app
    by (auto simp: validateLoaded_def Let_def split_beta storedOk_store)
qed

lemma validateLicense_ok:
  assumes "roundtrip cr" "storedOk cr s"
  shows "storedOk cr (snd (validateLicense cr dg env now k s))"
proof -
  obtain stored s1 where g: "getStoredLicense cr s = (stored, s1)" by (cases "getStoredLicense cr s")
  have s1: "storedOk cr s1" using getStoredLicense_snd_ok [OF assms(2)] g by simp
  have st: "deviceCountOk lic" if "stored = Some lic" for lic
    using getStoredLicense_fst_ok [OF assms] g that by simp
  have fresh: "deviceCountOk \<lparr>key = kk, email = e, deviceId = d, activatedAt = a, expiresAt = x,
      maxDevices = 3, currentDevices = [d], tier = t, features = f\<rparr>" for kk e d a x t f
    by (simp add: deviceCountOk_def)
  show ?thesis
  proof (cases stored)
    case (Some lic)
    then show ?thesis using g s1 st
      by (simp add: validateLicense_def validateLoaded_Some_ok)
  next
    case None
    show ?thesis
    proof (cases "k = None \<or> k = Some []")
      case True
      then show ?thesis using g s1 None
        by (auto simp: validateLicense_def validateLoaded_None_ok)
    next
      case False
      then obtain kk where k: "k = Some kk" "kk \<noteq> []" by (cases k) auto
      show ?thesis
      proof (cases "isValidLicenseFormat kk")
        case False
        then show ?thesis using g s1 None k by (simp add: validateLicense_def)
      next
        case True
        then show ?thesis using g s1 None k
          by (simp add: validateLicense_def Let_def split_beta validateLoaded_Some_ok storedOk_store fresh)
      qed
    qed
  qed
qed

lemma deactivateDevice_ok:
  assumes "roundtrip cr" "storedOk cr s"
  shows "storedOk cr (snd (deactivateDevice cr dg env now s))"
proof -
  obtain stored s1 where g: "getStoredLicense cr s = (stored, s1)" by (cases "getStoredLicense cr s")
  have s1: "storedOk cr s1" using getStoredLicense_snd_ok [OF assms(2)] g by simp
  have st: "deviceCountOk lic" if "stored = Some lic" for lic
    using getStoredLicense_fst_ok [OF assms] g that by simp
  have flt: "deviceCountOk (lic\<lparr>currentDevices := filter P (currentDevices lic)\<rparr>)"
    if ok: "deviceCountOk lic" for lic P
  proof -
    have a: "int (length (filter P (currentDevices lic))) \<le> int (length (currentDevices lic))"
      by simp
    have b: "int (length (currentDevices lic)) \<le> maxDevices lic"
      using ok by (simp add: deviceCountOk_def)
    from a b have "int (length (filter P (currentDevices lic))) \<le> maxDevices lic"
      by (rule order_trans)
    then show ?thesis by (simp add: deviceCountOk_def)
  qed
  show ?thesis
    using g s1 st flt
    by (cases stored) (simp_all add: deactivateDevice_def Let_def split_beta storedOk_store)
qed

lemma storedOk_device_ops:
  "storedOk cr (snd (registerDevice dg env now s)) = storedOk cr s"
  "storedOk cr (snd (verifyDevice dg env now s)) = storedOk cr s"
  "storedOk cr (s\<lparr>chapterflash_device := d\<rparr>) = storedOk cr s"
  by (rule storedOk_cong; simp add: registerDevice_def verifyDevice_def Let_def split: option.splits)+

lemma reachable_storedOk:
  assumes "roundtrip cr" "reachable cr dg s"
  shows "storedOk cr s"
  using assms(2)
proof (induction rule: reachable.induct)
  case start
  show ?case by simp
next
  case (validate s env now k)
  then show ?case using validateLicense_ok [OF assms(1)] by simp
next
  case (deactivate s env now)
  then show ?case using deactivateDevice_ok [OF assms(1)] by simp
next
  case (load s)
  then show ?case by (simp add: getStoredLicense_snd_ok)
next
  case (revoke s)
  show ?case by simp
next
  case (register s env now)
  then show ?case by (simp add: storedOk_device_ops)
next
  case (verify s env now)
  then show ?case by (simp add: storedOk_device_ops)
next
  case (device_item s d)
  then show ?case by (simp add: storedOk_device_ops)
qed

lemma getStoredLicense_Some:
  "fst (getStoredLicense cr s) = Some lic \<Longrightarrow> getStoredLicense cr s = (Some lic, s)"
  by (auto simp: getStoredLicense_def split: option.splits if_splits)

lemma getStoredLicense_slots:
  "chapterflash_license s' = chapterflash_license s \<Longrightarrow>
   chapterflash_license_hash s' = chapterflash_license_hash s \<Longrightarrow>
   fst (getStoredLicense cr s') = fst (getStoredLicense cr s)"
  by (auto simp: getStoredLicense_def split: option.splits)

lemma getStoredLicense_store:
  "roundtrip cr \<Longrightarrow> getStoredLicense cr (storeLicense cr lic s) = (Some lic, storeLicense cr lic s)"
  by (simp add: getStoredLicense_def storeLicense_def roundtrip_def)

lemma getStoredLicense_getDeviceId [simp]:
  "fst (getStoredLicense cr (snd (getDeviceId dg env now s))) = fst (getStoredLicense cr s)"
  by (rule getStoredLicense_slots) simp_all

lemma getDeviceId_twice [simp]:
  "getDeviceId dg env' now' (snd (getDeviceId dg env now s))
     = (fst (getDeviceId dg env now s), snd (getDeviceId dg env now s))"
  by (simp add: getDeviceId_def jsonRoundtrip_def Let_def split: option.splits)

lemma getDeviceId_store [simp]:
  "getDeviceId dg env now (storeLicense cr lic s)
     = (fst (getDeviceId dg env now s), storeLicense cr lic (snd (getDeviceId dg env now s)))"
  by (simp add: getDeviceId_def storeLicense_def Let_def split: option.splits)

lemma validateLicense_stored:
  "fst (getStoredLicense cr s) = Some lic \<Longrightarrow>
   validateLicense cr dg env now k s = validateLoaded cr dg env now (Some lic) s"
  by (simp add: validateLicense_def getStoredLicense_Some)

lemma activation_devices:
  assumes "fst (getStoredLicense cr s) = None" "k \<noteq> []" "isValidLicenseFormat k"
  shows "map_option currentDevices (license (fst (validateLicense cr dg env now (Some k) s)))
          = Some [fst (getDeviceId dg env now (snd (getStoredLicense cr s)))]"
proof -
  obtain s1 where g: "getStoredLicense cr s = (None, s1)"
    using assms(1) by (cases "getStoredLicense cr s") simp
  show ?thesis
    using assms(2,3) g
    by (simp add: validateLicense_def validateLoaded_def isExpired_def Let_def split_beta)
qed

lemma limit_reached:
  assumes "roundtrip cr" "fst (getStoredLicense cr s) = Some lic" "\<not> isExpired lic now"
    and "fst (getDeviceId dg env now s) \<notin> set (currentDevices lic)"
    and "int (length (currentDevices lic)) \<ge> maxDevices lic"
  shows "\<not> valid (fst (validateLicense cr dg env now k s))
     \<and> error (fst (validateLicense cr dg env now k s))
         = Some (''License is already active on '' @ showInt (maxDevices lic)
                 @ '' devices. Please deactivate a device first.'')
     \<and> fst (getStoredLicense cr (snd (validateLicense cr dg env now k s))) = Some lic"
  using assms(2-5)
  by (simp add: validateLicense_stored validateLoaded_def Let_def split_beta)

lemma device_appended:
  assumes "roundtrip cr" "fst (getStoredLicense cr s) = Some lic" "\<not> isExpired lic now"
    and "fst (getDeviceId dg env now s) \<notin> set (currentDevices lic)"
    and "\<not> int (length (currentDevices lic)) \<ge> maxDevices lic"
  shows "license (fst (validateLicense cr dg env now k s))
           = Some (lic\<lparr>currentDevices := currentDevices lic @ [fst (getDeviceId dg env now s)]\<rparr>)
     \<and> fst (getStoredLicense cr (snd (validateLicense cr dg env now k s)))
           = Some (lic\<lparr>currentDevices := currentDevices lic @ [fst (getDeviceId dg env now s)]\<rparr>)"
  using assms
  by (simp add: validateLicense_stored validateLoaded_def Let_def split_beta getStoredLicense_store)

lemma deactivate_filters:
  assumes "roundtrip cr" "fst (getStoredLicense cr s) = Some lic"
  shows "fst (getStoredLicense cr (snd (deactivateDevice cr dg env now s)))
           = Some (lic\<lparr>currentDevices :=
                     filter (\<lambda>d. d \<noteq> fst (getDeviceId dg env now s)) (currentDevices lic)\<rparr>)"
  using assms
  by (simp add: deactivateDevice_def getStoredLicense_Some Let_def split_beta getStoredLicense_store)

text \<open>Concrete runs with the stand-in encryption and digest.\<close>

lemma act: "validateLicense plainCrypto lengthDigest sampleEnv 1000 (Some sampleKey) emptyStorage
   = (\<lparr>valid = True, license = Some sampleLicense, error = None, daysRemaining = None\<rparr>,
      storeLicense plainCrypto sampleLicense sampleStorage)"
  by (simp add: lic_defs eval_defs)

lemma roundtrip_plain: "roundtrip plainCrypto"
  by (simp add: roundtrip_def plainCrypto_def)

lemma activatedStorage_eq: "activatedStorage = storeLicense plainCrypto sampleLicense sampleStorage"
  by (simp add: activatedStorage_def lic_defs eval_defs)

lemma stored_activated: "fst (getStoredLicense plainCrypto activatedStorage) = Some sampleLicense"
  by (simp add: activatedStorage_eq getStoredLicense_store roundtrip_plain)

lemma reachable_activated: "reachable plainCrypto lengthDigest activatedStorage"
  unfolding activatedStorage_def by (rule reachable.validate, rule reachable.start)

lemma reachable_validateOn:
  "reachable plainCrypto lengthDigest s \<Longrightarrow> reachable plainCrypto lengthDigest (validateOn env now s)"
  unfolding validateOn_def by (rule reachable.validate, rule reachable.device_item)

lemma reachable_full: "reachable plainCrypto lengthDigest fullStorage"
  unfolding fullStorage_def by (intro reachable_validateOn reachable_activated)

lemma second_device:
  "validateOn driftedEnv 3000 activatedStorage =
     storeLicense plainCrypto (sampleLicense\<lparr>currentDevices := [''ea'', ''e7'']\<rparr>)
       (emptyStorage\<lparr>chapterflash_device :=
          Some (jsonRoundtrip (getDeviceFingerprint lengthDigest driftedEnv 3000))\<rparr>)"
  by (simp add: validateOn_def activatedStorage_eq) (simp add: lic_defs eval_defs)

lemma third_device:
  "fullStorage =
     storeLicense plainCrypto (sampleLicense\<lparr>currentDevices := [''ea'', ''e7'', ''f3'']\<rparr>)
       (emptyStorage\<lparr>chapterflash_device :=
          Some (jsonRoundtrip (getDeviceFingerprint lengthDigest envC 4000))\<rparr>)"
  by (simp add: fullStorage_def second_device) (simp add: validateOn_def envC_def lic_defs eval_defs)

lemma stored_full:
  "fst (getStoredLicense plainCrypto fullStorage) = Some (sampleLicense\<lparr>currentDevices := [''ea'', ''e7'', ''f3'']\<rparr>)"
  by (simp add: third_device getStoredLicense_store roundtrip_plain)

text \<open>
  C2, as stated, fails in its last part. On the storage whose ciphertext was replaced
  without recomputing the tag, \<open>validateLicense()\<close> returns the same result as on the
  empty storage, "No license found. Please activate your license.": the caller gets no
  tamper error. Called with a well-formed key, it even activates a new license and
  returns a valid result.
\<close>

theorem tamper_counterexample:
  "fst (validateLicense plainCrypto lengthDigest sampleEnv 2000 None tamperedStorage) = noLicenseResult
   \<and> fst (validateLicense plainCrypto lengthDigest sampleEnv 2000 None
          (emptyStorage :: (License option, License) Storage)) = noLicenseResult
   \<and> error noLicenseResult = Some ''No license found. Please activate your license.''
   \<and> valid (fst (validateLicense plainCrypto lengthDigest sampleEnv 2000 (Some sampleKey) tamperedStorage))"
  by (simp add: tamperedStorage_def lic_defs eval_defs)

text \<open>
  C2, amended. If the stored ciphertext is replaced by that of a license whose tag
  differs from the stored tag, and the tag is not recomputed, the next
  \<open>validateLicense()\<close> without a key detects the mismatch, revokes (the license item,
  the tag item and the activation date are removed) and returns the result
  "No license found", the same as when no license is stored.
\<close>

theorem tampered_payload_revoked:
  assumes "hashData cr lic' \<noteq> hashData cr lic"
    and "decryptData cr (encryptData cr lic') = Some lic'"
    and "s = (storeLicense cr lic s0)\<lparr>chapterflash_license := Some (encryptData cr lic')\<rparr>"
  shows "getStoredLicense cr s = (None, revokeLicense s)
     \<and> validateLicense cr dg env now None s = (noLicenseResult, revokeLicense s)
     \<and> chapterflash_license (revokeLicense s) = None
     \<and> chapterflash_license_hash (revokeLicense s) = None
     \<and> chapterflash_activation_date (revokeLicense s) = None"
proof -
  have g: "getStoredLicense cr s = (None, revokeLicense s)"
    using assms by (simp add: getStoredLicense_def storeLicense_def)
  then show ?thesis
    by (simp add: validateLicense_def validateLoaded_def revokeLicense_def)
qed

theorem tampered_payload_revoked_witness:
  "hashData plainCrypto (sampleLicense\<lparr>maxDevices := 100\<rparr>) \<noteq> hashData plainCrypto sampleLicense
   \<and> decryptData plainCrypto (encryptData plainCrypto (sampleLicense\<lparr>maxDevices := 100\<rparr>))
        = Some (sampleLicense\<lparr>maxDevices := 100\<rparr>)
   \<and> validateLicense plainCrypto lengthDigest sampleEnv 2000 None tamperedStorage
        = (noLicenseResult, revokeLicense tamperedStorage)
   \<and> chapterflash_license (revokeLicense tamperedStorage) = None
   \<and> chapterflash_license_hash (revokeLicense tamperedStorage) = None"
proof -
  have n: "hashData plainCrypto (sampleLicense\<lparr>maxDevices := 100\<rparr>) \<noteq> hashData plainCrypto sampleLicense"
    by (simp add: plainCrypto_def sampleLicense_def)
  have d: "decryptData plainCrypto (encryptData plainCrypto (sampleLicense\<lparr>maxDevices := 100\<rparr>))
        = Some (sampleLicense\<lparr>maxDevices := 100\<rparr>)"
    by (simp add: plainCrypto_def)
  from tampered_payload_revoked [OF n d tamperedStorage_def, of lengthDigest sampleEnv 2000] n d
  show ?thesis by blast
qed

text \<open>
  C8, as stated, fails. On a stored ciphertext that does not decrypt, the load returns
  no license and leaves the storage as it is: the license item and the tag item are
  still there after \<open>getStoredLicense\<close> and after \<open>validateLicense()\<close>, whereas the tag
  mismatch removes both.
\<close>

theorem decrypt_failure_counterexample:
  "decryptData plainCrypto None = None
   \<and> snd (getStoredLicense plainCrypto corruptStorage) = corruptStorage
   \<and> chapterflash_license (snd (validateLicense plainCrypto lengthDigest sampleEnv 2000 None corruptStorage))
        = Some None
   \<and> chapterflash_license_hash (snd (validateLicense plainCrypto lengthDigest sampleEnv 2000 None corruptStorage))
        = Some sampleLicense
   \<and> chapterflash_license (snd (validateLicense plainCrypto lengthDigest sampleEnv 2000 None tamperedStorage))
        = None
   \<and> chapterflash_license_hash (snd (validateLicense plainCrypto lengthDigest sampleEnv 2000 None tamperedStorage))
        = None"
  by (simp add: corruptStorage_def tamperedStorage_def lic_defs)

text \<open>
  C8, amended. A decryption failure when loading the stored license makes the load
  return no license, so that \<open>validateLicense()\<close> without a key reports "No license
  found" as it does after a tag mismatch; but the stored license and tag are left in
  place: there is no revocation.
\<close>

theorem undecryptable_license_kept:
  assumes "chapterflash_license s = Some c" "chapterflash_license_hash s = Some tag"
    and "decryptData cr c = None"
  shows "getStoredLicense cr s = (None, s)
     \<and> validateLicense cr dg env now None s = (noLicenseResult, s)
     \<and> chapterflash_license (snd (validateLicense cr dg env now None s)) = Some c
     \<and> chapterflash_license_hash (snd (validateLicense cr dg env now None s)) = Some tag"
  using assms by (simp add: getStoredLicense_def validateLicense_def validateLoaded_def)

theorem undecryptable_license_kept_witness:
  "chapterflash_license corruptStorage = Some None
   \<and> chapterflash_license_hash corruptStorage = Some sampleLicense
   \<and> decryptData plainCrypto None = None
   \<and> getStoredLicense plainCrypto corruptStorage = (None, corruptStorage)
   \<and> validateLicense plainCrypto lengthDigest sampleEnv 2000 None corruptStorage
        = (noLicenseResult, corruptStorage)"
proof -
  have a: "chapterflash_license corruptStorage = Some None"
    by (simp add: corruptStorage_def)
  have b: "chapterflash_license_hash corruptStorage = Some sampleLicense"
    by (simp add: corruptStorage_def storeLicense_def plainCrypto_def)
  have c: "decryptData plainCrypto None = None"
    by (simp add: plainCrypto_def)
  from undecryptable_license_kept [OF a b c, of lengthDigest sampleEnv 2000] a b c
  show ?thesis by blast
qed

text \<open>
  C3. In every reachable storage the license that loads has at most \<open>maxDevices\<close>
  devices (the encryption module being such that decryption inverts encryption).
  Activation creates the license with exactly the activating device; a
  \<open>validateLicense()\<close> of an unexpired license from a device that is not listed is
  refused with the device-limit message, the stored license unchanged, when the list
  has \<open>maxDevices\<close> entries or more, and otherwise appends the device; and
  \<open>deactivateDevice()\<close> keeps a sublist of the devices.
\<close>

theorem device_count_bounded:
  assumes "roundtrip cr" and "reachable cr dg s"
  shows "(case fst (getStoredLicense cr s) of
            None \<Rightarrow> True
          | Some lic \<Rightarrow> int (length (currentDevices lic)) \<le> maxDevices lic)
     \<and> (fst (getStoredLicense cr s) = None \<and> k \<noteq> [] \<and> isValidLicenseFormat k \<longrightarrow>
          map_option currentDevices (license (fst (validateLicense cr dg env now (Some k) s)))
            = Some [fst (getDeviceId dg env now (snd (getStoredLicense cr s)))])
     \<and> (\<forall>lic. fst (getStoredLicense cr s) = Some lic \<and> \<not> isExpired lic now
            \<and> fst (getDeviceId dg env now s) \<notin> set (currentDevices lic) \<longrightarrow>
          (if int (length (currentDevices lic)) \<ge> maxDevices lic
           then \<not> valid (fst (validateLicense cr dg env now k2 s))
              \<and> error (fst (validateLicense cr dg env now k2 s))
                  = Some (''License is already active on '' @ showInt (maxDevices lic)
                          @ '' devices. Please deactivate a device first.'')
              \<and> fst (getStoredLicense cr (snd (validateLicense cr dg env now k2 s))) = Some lic
           else fst (getStoredLicense cr (snd (validateLicense cr dg env now k2 s)))
                  = Some (lic\<lparr>currentDevices := currentDevices lic @ [fst (getDeviceId dg env now s)]\<rparr>)))
     \<and> (\<forall>lic. fst (getStoredLicense cr s) = Some lic \<longrightarrow>
          fst (getStoredLicense cr (snd (deactivateDevice cr dg env now s)))
            = Some (lic\<lparr>currentDevices :=
                      filter (\<lambda>d. d \<noteq> fst (getDeviceId dg env now s)) (currentDevices lic)\<rparr>))"
proof -
  have ok: "storedOk cr s" using assms by (rule reachable_storedOk)
  have inv: "(case fst (getStoredLicense cr s) of
            None \<Rightarrow> True
          | Some lic \<Rightarrow> int (length (currentDevices lic)) \<le> maxDevices lic)"
  proof (cases "fst (getStoredLicense cr s)")
    case None
    then show ?thesis by simp
  next
    case (Some lic)
    then have "deviceCountOk lic" using getStoredLicense_fst_ok [OF assms(1) ok] by simp
    then show ?thesis using Some by (simp add: deviceCountOk_def)
  qed
  have act: "fst (getStoredLicense cr s) = None \<and> k \<noteq> [] \<and> isValidLicenseFormat k \<longrightarrow>
          map_option currentDevices (license (fst (validateLicense cr dg env now (Some k) s)))
            = Some [fst (getDeviceId dg env now (snd (getStoredLicense cr s)))]"
    using activation_devices by blast
  have val: "\<forall>lic. fst (getStoredLicense cr s) = Some lic \<and> \<not> isExpired lic now
            \<and> fst (getDeviceId dg env now s) \<notin> set (currentDevices lic) \<longrightarrow>
          (if int (length (currentDevices lic)) \<ge> maxDevices lic
           then \<not> valid (fst (validateLicense cr dg env now k2 s))
              \<and> error (fst (validateLicense cr dg env now k2 s))
                  = Some (''License is already active on '' @ showInt (maxDevices lic)
                          @ '' devices. Please deactivate a device first.'')
              \<and> fst (getStoredLicense cr (snd (validateLicense cr dg env now k2 s))) = Some lic
           else fst (getStoredLicense cr (snd (validateLicense cr dg env now k2 s)))
                  = Some (lic\<lparr>currentDevices := currentDevices lic @ [fst (getDeviceId dg env now s)]\<rparr>))"
    using limit_reached [OF assms(1)] device_appended [OF assms(1)] by auto
  have deact: "\<forall>lic. fst (getStoredLicense cr s) = Some lic \<longrightarrow>
          fst (getStoredLicense cr (snd (deactivateDevice cr dg env now s)))
            = Some (lic\<lparr>currentDevices :=
                      filter (\<lambda>d. d \<noteq> fst (getDeviceId dg env now s)) (currentDevices lic)\<rparr>)"
    using deactivate_filters [OF assms(1)] by blast
  from inv act val deact show ?thesis by blast
qed

theorem device_count_bounded_witness:
  "roundtrip plainCrypto
   \<and> reachable plainCrypto lengthDigest fullStorage
   \<and> fst (getStoredLicense plainCrypto fullStorage)
        = Some (sampleLicense\<lparr>currentDevices := [''ea'', ''e7'', ''f3'']\<rparr>)
   \<and> int (length [''ea'', ''e7'', ''f3'']) \<le> maxDevices sampleLicense
   \<and> fst (getDeviceId lengthDigest envD 5000 (fullStorage\<lparr>chapterflash_device := None\<rparr>)) = ''df''
   \<and> \<not> valid (fst (validateLicense plainCrypto lengthDigest envD 5000 None
          (fullStorage\<lparr>chapterflash_device := None\<rparr>)))
   \<and> fst (getStoredLicense plainCrypto (snd (validateLicense plainCrypto lengthDigest envD 5000 None
          (fullStorage\<lparr>chapterflash_device := None\<rparr>))))
        = Some (sampleLicense\<lparr>currentDevices := [''ea'', ''e7'', ''f3'']\<rparr>)"
proof -
  let ?lic = "sampleLicense\<lparr>currentDevices := [''ea'', ''e7'', ''f3'']\<rparr>"
  let ?s = "fullStorage\<lparr>chapterflash_device := None\<rparr>"
  have r: "reachable plainCrypto lengthDigest ?s"
    by (rule reachable.device_item, rule reachable_full)
  have st: "fst (getStoredLicense plainCrypto ?s) = Some ?lic"
    using stored_full getStoredLicense_slots [of ?s fullStorage plainCrypto] by simp
  have d: "fst (getDeviceId lengthDigest envD 5000 ?s) = ''df''"
    by (simp add: envD_def eval_defs)
  have hyp: "fst (getStoredLicense plainCrypto ?s) = Some ?lic \<and> \<not> isExpired ?lic 5000
      \<and> fst (getDeviceId lengthDigest envD 5000 ?s) \<notin> set (currentDevices ?lic)"
    using st d by (simp add: isExpired_def sampleLicense_def)
  have full: "int (length (currentDevices ?lic)) \<ge> maxDevices ?lic"
    by (simp add: sampleLicense_def)
  note t = device_count_bounded [OF roundtrip_plain r,
      where env = envD and now = 5000 and ?k2.0 = None]
  from t have inv: "(case fst (getStoredLicense plainCrypto ?s) of
            None \<Rightarrow> True
          | Some lic \<Rightarrow> int (length (currentDevices lic)) \<le> maxDevices lic)"
    by (rule conjunct1)
  from t have "\<forall>lic. fst (getStoredLicense plainCrypto ?s) = Some lic \<and> \<not> isExpired lic 5000
            \<and> fst (getDeviceId lengthDigest envD 5000 ?s) \<notin> set (currentDevices lic) \<longrightarrow>
          (if int (length (currentDevices lic)) \<ge> maxDevices lic
           then \<not> valid (fst (validateLicense plainCrypto lengthDigest envD 5000 None ?s))
              \<and> error (fst (validateLicense plainCrypto lengthDigest envD 5000 None ?s))
                  = Some (''License is already active on '' @ showInt (maxDevices lic)
                          @ '' devices. Please deactivate a device first.'')
              \<and> fst (getStoredLicense plainCrypto (snd (validateLicense plainCrypto lengthDigest envD 5000 None ?s))) = Some lic
           else fst (getStoredLicense plainCrypto (snd (validateLicense plainCrypto lengthDigest envD 5000 None ?s)))
                  = Some (lic\<lparr>currentDevices := currentDevices lic @ [fst (getDeviceId lengthDigest envD 5000 ?s)]\<rparr>))"
    by blast
  with hyp full have lim: "\<not> valid (fst (validateLicense plainCrypto lengthDigest envD 5000 None ?s))
      \<and> fst (getStoredLicense plainCrypto (snd (validateLicense plainCrypto lengthDigest envD 5000 None ?s))) = Some ?lic"
    by (metis (no_types, lifting))
  have bound: "int (length [''ea'', ''e7'', ''f3'']) \<le> maxDevices sampleLicense"
    using inv st by simp
  from roundtrip_plain reachable_full stored_full bound d lim show ?thesis by blast
qed

text \<open>
  C4, as stated, fails. After activating on a device and deactivating that device, the
  license is still stored, and its \<open>currentDevices\<close> is empty.
\<close>

theorem deactivate_counterexample:
  "map_option currentDevices
     (fst (getStoredLicense plainCrypto
        (snd (deactivateDevice plainCrypto lengthDigest sampleEnv 2000
           (snd (validateLicense plainCrypto lengthDigest sampleEnv 1000 (Some sampleKey) emptyStorage))))))
   = Some []"
  by (simp add: act) (simp add: lic_defs eval_defs)

lemma validateLoaded_valid:
  assumes "roundtrip cr" "fst (getStoredLicense cr s) = Some lic"
    and "valid (fst (validateLoaded cr dg env now (Some lic) s))"
  shows "persistedHasDevice cr dg env2 now2 (validateLoaded cr dg env now (Some lic) s)"
proof (cases "fst (getDeviceId dg env now s) \<in> set (currentDevices lic)")
  case True
  then have ne: "currentDevices lic \<noteq> []" by auto
  show ?thesis
    using assms True ne
    by (simp add: validateLoaded_def persistedHasDevice_def Let_def split_beta split: if_splits)
next
  case False
  show ?thesis
    using assms False
    by (simp add: validateLoaded_def persistedHasDevice_def Let_def split_beta getStoredLicense_store
        split: if_splits)
qed

lemma validateLicense_valid:
  assumes "roundtrip cr" "valid (fst (validateLicense cr dg env now k s))"
  shows "persistedHasDevice cr dg env2 now2 (validateLicense cr dg env now k s)"
proof (cases "fst (getStoredLicense cr s)")
  case (Some lic)
  then show ?thesis
    using assms validateLoaded_valid [OF assms(1) Some, of dg env now env2 now2]
    by (simp add: validateLicense_stored)
next
  case None
  then obtain s1 where g: "getStoredLicense cr s = (None, s1)"
    by (cases "getStoredLicense cr s") simp
  show ?thesis
  proof (cases "k = None \<or> k = Some []")
    case True
    then show ?thesis using assms(2) g
      by (auto simp: validateLicense_def validateLoaded_def noLicenseResult_def)
  next
    case False
    then obtain kk where k: "k = Some kk" "kk \<noteq> []" by (cases k) auto
    show ?thesis
    proof (cases "isValidLicenseFormat kk")
      case False
      then show ?thesis using assms(2) g k by (simp add: validateLicense_def)
    next
      case True
      let ?lic = "\<lparr>key = kk, email = ''user@example.com'', deviceId = fst (getDeviceId dg env now s1),
                   activatedAt = now, expiresAt = None, maxDevices = 3,
                   currentDevices = [fst (getDeviceId dg env now s1)], tier = Student,
                   features = [''offline_access'', ''all_chapters'',
                               ''progress_tracking'', ''export_data'']\<rparr>"
      let ?s2 = "storeLicense cr ?lic (snd (getDeviceId dg env now s1))"
      have v: "validateLicense cr dg env now k s = validateLoaded cr dg env now (Some ?lic) ?s2"
        using g k True by (simp add: validateLicense_def Let_def split_beta)
      have st: "fst (getStoredLicense cr ?s2) = Some ?lic"
        using assms(1) by (simp add: getStoredLicense_store)
      show ?thesis
        using validateLoaded_valid [OF assms(1) st, of dg env now env2 now2] assms(2) v
        by simp
    qed
  qed
qed

text \<open>
  C4, amended. After every \<open>validateLicense()\<close> that returns a valid result (activation
  included), the persisted license is the one returned and lists the current device, so
  its \<open>currentDevices\<close> is not empty. \<open>deactivateDevice()\<close> persists the license with
  the current device removed from the list, whatever remains.
\<close>

theorem currentDevices_after_validate_and_deactivate:
  assumes "roundtrip cr"
  shows "(valid (fst (validateLicense cr dg env now k s)) \<longrightarrow>
            (case fst (getStoredLicense cr (snd (validateLicense cr dg env now k s))) of
               None \<Rightarrow> False
             | Some lic \<Rightarrow>
                 license (fst (validateLicense cr dg env now k s)) = Some lic
                 \<and> fst (getDeviceId dg env2 now2 (snd (validateLicense cr dg env now k s)))
                     \<in> set (currentDevices lic)
                 \<and> currentDevices lic \<noteq> []))
     \<and> (\<forall>lic. fst (getStoredLicense cr s) = Some lic \<longrightarrow>
           fst (getStoredLicense cr (snd (deactivateDevice cr dg env now s)))
             = Some (lic\<lparr>currentDevices :=
                       filter (\<lambda>d. d \<noteq> fst (getDeviceId dg env now s)) (currentDevices lic)\<rparr>))"
proof -
  have a: "valid (fst (validateLicense cr dg env now k s)) \<longrightarrow>
            (case fst (getStoredLicense cr (snd (validateLicense cr dg env now k s))) of
               None \<Rightarrow> False
             | Some lic \<Rightarrow>
                 license (fst (validateLicense cr dg env now k s)) = Some lic
                 \<and> fst (getDeviceId dg env2 now2 (snd (validateLicense cr dg env now k s)))
                     \<in> set (currentDevices lic)
                 \<and> currentDevices lic \<noteq> [])"
    using validateLicense_valid [OF assms, of dg env now k s env2 now2]
    by (simp add: persistedHasDevice_def)
  have b: "\<forall>lic. fst (getStoredLicense cr s) = Some lic \<longrightarrow>
           fst (getStoredLicense cr (snd (deactivateDevice cr dg env now s)))
             = Some (lic\<lparr>currentDevices :=
                       filter (\<lambda>d. d \<noteq> fst (getDeviceId dg env now s)) (currentDevices lic)\<rparr>)"
    using deactivate_filters [OF assms] by blast
  from a b show ?thesis by blast
qed

theorem currentDevices_after_validate_and_deactivate_witness:
  "roundtrip plainCrypto
   \<and> valid (fst (validateLicense plainCrypto lengthDigest sampleEnv 1000 (Some sampleKey)
        (emptyStorage :: (License option, License) Storage)))
   \<and> fst (getStoredLicense plainCrypto activatedStorage) = Some sampleLicense
   \<and> currentDevices sampleLicense = [''ea'']
   \<and> fst (getDeviceId lengthDigest driftedEnv 2000 activatedStorage) = ''ea''
   \<and> fst (getStoredLicense plainCrypto (snd (deactivateDevice plainCrypto lengthDigest sampleEnv 2000 activatedStorage)))
        = Some (sampleLicense\<lparr>currentDevices := []\<rparr>)"
proof -
  note t = currentDevices_after_validate_and_deactivate [OF roundtrip_plain,
      where dg = lengthDigest and env = sampleEnv]
  have v: "valid (fst (validateLicense plainCrypto lengthDigest sampleEnv 1000 (Some sampleKey)
        (emptyStorage :: (License option, License) Storage)))"
    by (simp add: act)
  have c: "currentDevices sampleLicense = [''ea'']"
    by (simp add: sampleLicense_def)
  have d: "fst (getDeviceId lengthDigest sampleEnv 2000 activatedStorage) = ''ea''"
    by (simp add: activatedStorage_eq) (simp add: eval_defs)
  from t [where now = 1000 and k = "Some sampleKey" and s = emptyStorage
      and ?env2.0 = driftedEnv and ?now2.0 = 2000, THEN conjunct1] v
  have "case fst (getStoredLicense plainCrypto activatedStorage) of
               None \<Rightarrow> False
             | Some lic \<Rightarrow>
                 license (fst (validateLicense plainCrypto lengthDigest sampleEnv 1000 (Some sampleKey) emptyStorage)) = Some lic
                 \<and> fst (getDeviceId lengthDigest driftedEnv 2000 activatedStorage) \<in> set (currentDevices lic)
                 \<and> currentDevices lic \<noteq> []"
    unfolding activatedStorage_def by blast
  with stored_activated c
  have e: "fst (getDeviceId lengthDigest driftedEnv 2000 activatedStorage) = ''ea''"
    by simp
  from t [where now = 2000 and s = activatedStorage, THEN conjunct2] stored_activated
  have "fst (getStoredLicense plainCrypto (snd (deactivateDevice plainCrypto lengthDigest sampleEnv 2000 activatedStorage)))
        = Some (sampleLicense\<lparr>currentDevices :=
              filter (\<lambda>d. d \<noteq> fst (getDeviceId lengthDigest sampleEnv 2000 activatedStorage)) (currentDevices sampleLicense)\<rparr>)"
    by blast
  then have f: "fst (getStoredLicense plainCrypto (snd (deactivateDevice plainCrypto lengthDigest sampleEnv 2000 activatedStorage)))
        = Some (sampleLicense\<lparr>currentDevices := []\<rparr>)"
    by (simp add: d c)
  from roundtrip_plain v stored_activated c e f show ?thesis by blast
qed

end
